theory Spec2Isabelle
  imports Complex_Main
begin

section \<open>Python values\<close>

text \<open>
  The program is one Python file, \<^verbatim>\<open>initiator.py\<close>. Its functions are dynamically typed, so
  the embedding works over one datatype of Python values. Numbers of type \<^verbatim>\<open>float\<close> and
  \<^verbatim>\<open>Decimal\<close> are carried as the rational number they denote (NaN and the infinities are not
  represented). A \<^verbatim>\<open>dict\<close> with string keys (every JSON object, every keyword dictionary) is an
  association list in insertion order; its keys are meant to be distinct, and every lookup
  takes the first entry of a key.
\<close>

datatype datetime = Datetime nat nat nat nat nat nat

datatype pyval =
    PNone
  | PBool bool
  | PInt int
  | PFloat rat
  | PDecimal rat
  | PStr string
  | PBytes string
  | PDatetime datetime
  | PList "pyval list"
  | PTuple "pyval list"
  | PDict "(string \<times> pyval) list"

text \<open>The exceptions the modelled code can raise, by class.\<close>

datatype error = AttributeError | TypeError | KeyError | IndexError | UnboundLocalError
  | RuntimeError | ValueError | NameError

text \<open>
  Functions of the Python library and of the spreadsheet libraries that the program calls and
  that are not part of it. They are parameters of the model.
\<close>

record pylib =
  strftime_mdY :: "datetime \<Rightarrow> string"
  float_of_decimal :: "rat \<Rightarrow> rat"
  strptime :: "string \<Rightarrow> string \<Rightarrow> datetime option"
  str_of :: "pyval \<Rightarrow> string"

text \<open>Truth value of an object in a condition (\<^verbatim>\<open>if x:\<close>, \<^verbatim>\<open>x or y\<close>).\<close>

fun truthy :: "pyval \<Rightarrow> bool" where
  "truthy PNone = False"
| "truthy (PBool b) = b"
| "truthy (PInt i) = (i \<noteq> 0)"
| "truthy (PFloat r) = (r \<noteq> 0)"
| "truthy (PDecimal r) = (r \<noteq> 0)"
| "truthy (PStr s) = (s \<noteq> [])"
| "truthy (PBytes s) = (s \<noteq> [])"
| "truthy (PDatetime d) = True"
| "truthy (PList xs) = (xs \<noteq> [])"
| "truthy (PTuple xs) = (xs \<noteq> [])"
| "truthy (PDict kvs) = (kvs \<noteq> [])"

text \<open>\<^verbatim>\<open>str(n)\<close> of an integer: its decimal digits, with a minus sign when negative.\<close>

fun str_nat :: "nat \<Rightarrow> string" where
  "str_nat n = (if n < 10 then [''0123456789'' ! n]
                else str_nat (n div 10) @ [''0123456789'' ! (n mod 10)])"

declare str_nat.simps [simp del]

definition str_int :: "int \<Rightarrow> string" where
  "str_int i = (if i < 0 then CHR ''-'' # str_nat (nat (- i)) else str_nat (nat i))"

section \<open>Formatter\<close>

text \<open>
  \<^verbatim>\<open>class Formatter\<close>: five attributes, each \<^verbatim>\<open>None\<close> unless the constructor is given it.
  \<^verbatim>\<open>Formatter(**kw)\<close> raises \<^verbatim>\<open>TypeError\<close> on a keyword that is not one of the five parameters.
\<close>

record Formatter =
  cell_str_format :: pyval
  font_styles :: pyval
  cell_borders :: pyval
  text_color :: pyval
  bg_color :: pyval

type_synonym style = "(string \<times> pyval) list"

definition formatter_fields :: "string list" where
  "formatter_fields =
     [''cell_str_format'', ''font_styles'', ''cell_borders'', ''text_color'', ''bg_color'']"

definition kwarg :: "style \<Rightarrow> string \<Rightarrow> pyval" where
  "kwarg kw k = (case map_of kw k of None \<Rightarrow> PNone | Some v \<Rightarrow> v)"

definition Formatter_init :: "style \<Rightarrow> error + Formatter" where
  "Formatter_init kw =
     (if list_all (\<lambda>k. k \<in> set formatter_fields) (map fst kw)
      then Inr \<lparr> cell_str_format = kwarg kw ''cell_str_format'',
                 font_styles = kwarg kw ''font_styles'',
                 cell_borders = kwarg kw ''cell_borders'',
                 text_color = kwarg kw ''text_color'',
                 bg_color = kwarg kw ''bg_color'' \<rparr>
      else Inl TypeError)"

text \<open>Reading an attribute of a Formatter by its name (\<^verbatim>\<open>getattr\<close>).\<close>

definition formatter_attr :: "Formatter \<Rightarrow> string \<Rightarrow> pyval option" where
  "formatter_attr f k =
     (if k = ''cell_str_format'' then Some (cell_str_format f)
      else if k = ''font_styles'' then Some (font_styles f)
      else if k = ''cell_borders'' then Some (cell_borders f)
      else if k = ''text_color'' then Some (text_color f)
      else if k = ''bg_color'' then Some (bg_color f)
      else None)"

section \<open>Formatting instructions and their resolution\<close>

text \<open>
  The instructions are a dict with the optional keys \<^verbatim>\<open>'row'\<close>, \<^verbatim>\<open>'column'\<close> and \<^verbatim>\<open>'cell'\<close>, each
  holding a dict from a key (any hashable value) to a keyword dictionary. The keyword
  dictionaries are objects that the function updates in place, and two entries may hold the
  same object. So a tier maps a key to the identity of a dictionary object, and \<open>objects\<close> is
  the store that gives each identity its dictionary. An identity that the store does not hold
  reads as the empty dictionary.
\<close>

type_synonym obj_id = nat

type_synonym store = "(obj_id \<times> style) list"

record instructions =
  row_tier :: "(pyval \<times> obj_id) list option"
  column_tier :: "(pyval \<times> obj_id) list option"
  cell_tier :: "(pyval \<times> obj_id) list option"
  objects :: store

definition obj_at :: "store \<Rightarrow> obj_id \<Rightarrow> style" where
  "obj_at objs a = (case map_of objs a of None \<Rightarrow> [] | Some d \<Rightarrow> d)"

text \<open>
  \<^verbatim>\<open>instructions.get(t) and instructions[t].get(k)\<close>: the entry, when the tier is there and not
  empty and the entry is there and not empty.
\<close>

definition tier_entry :: "store \<Rightarrow> (pyval \<times> obj_id) list option \<Rightarrow> pyval \<Rightarrow> obj_id option" where
  "tier_entry objs tier k =
     (case tier of
        None \<Rightarrow> None
      | Some m \<Rightarrow> (case map_of m k of
                     None \<Rightarrow> None
                   | Some a \<Rightarrow> if obj_at objs a = [] then None else Some a))"

text \<open>\<^verbatim>\<open>d[k] = v\<close> on a dictionary, and the loop \<^verbatim>\<open>for k, v in items: d[k] = v\<close>.\<close>

fun dict_set :: "('k \<times> 'v) list \<Rightarrow> 'k \<Rightarrow> 'v \<Rightarrow> ('k \<times> 'v) list" where
  "dict_set [] k v = [(k, v)]"
| "dict_set ((k', v') # d) k v = (if k' = k then (k', v) # d else (k', v') # dict_set d k v)"

fun overlay :: "style \<Rightarrow> style \<Rightarrow> style" where
  "overlay total_instructions [] = total_instructions"
| "overlay total_instructions ((k, v) # items) = overlay (dict_set total_instructions k v) items"

text \<open>
  The loop \<^verbatim>\<open>for k, v in source.items(): total_instructions[k] = v\<close> on two objects of the store.
  When the two are one object, every step assigns to a key the value it has, and the object
  stays as it is.
\<close>

definition update_items :: "store \<Rightarrow> obj_id \<Rightarrow> obj_id \<Rightarrow> store" where
  "update_items objs total_instructions source =
     (if source = total_instructions then objs
      else dict_set objs total_instructions
             (overlay (obj_at objs total_instructions) (obj_at objs source)))"

text \<open>
  \<^verbatim>\<open>ExcelUtils._convert_instructions_to_formats\<close>. \<^verbatim>\<open>copy.deepcopy\<close> gives a structure of new
  objects that are shared among the entries exactly as the objects of the argument are, so the
  copy is the same store under the same identities; the updates are made on it and the
  argument is left as it was.
\<close>

definition convert_instructions_to_formats ::
  "instructions option \<Rightarrow> int \<Rightarrow> int \<Rightarrow> error + Formatter" where
  "convert_instructions_to_formats instr row_idx col_idx =
     (case instr of
        None \<Rightarrow> Formatter_init []
      | Some ins \<Rightarrow>
          (let r = PStr (str_int row_idx);
               c = PStr (str_int col_idx);
               cell = PTuple [r, c];
               objs = objects ins;
               instructions_copy = objs
           in case tier_entry objs (cell_tier ins) cell of
                Some ce \<Rightarrow>
                  (let (total_instructions, copy_1) =
                         (case tier_entry objs (row_tier ins) r of
                            Some re \<Rightarrow>
                              (case tier_entry objs (column_tier ins) c of
                                 Some co \<Rightarrow> (re, update_items instructions_copy re co)
                               | None \<Rightarrow> (re, instructions_copy))
                          | None \<Rightarrow>
                              (case tier_entry objs (column_tier ins) c of
                                 Some co \<Rightarrow> (co, instructions_copy)
                               | None \<Rightarrow> (ce, instructions_copy)));
                       copy_2 = update_items copy_1 total_instructions ce
                   in Formatter_init (obj_at copy_2 total_instructions))
              | None \<Rightarrow>
                  (case tier_entry objs (row_tier ins) r of
                     Some re \<Rightarrow>
                       (case tier_entry objs (column_tier ins) c of
                          Some co \<Rightarrow> Formatter_init (obj_at (update_items instructions_copy re co) re)
                        | None \<Rightarrow> Formatter_init (obj_at instructions_copy re))
                   | None \<Rightarrow>
                       (case tier_entry objs (column_tier ins) c of
                          Some co \<Rightarrow> Formatter_init (obj_at instructions_copy co)
                        | None \<Rightarrow> Formatter_init []))))"

section \<open>Serialising a value for the sheet\<close>

text \<open>\<^verbatim>\<open>DBUtility.serialize\<close>. A list, a tuple, bytes and \<^verbatim>\<open>None\<close> fall through to \<^verbatim>\<open>None\<close>.\<close>

fun serialize :: "pylib \<Rightarrow> pyval \<Rightarrow> pyval" where
  "serialize lib (PDatetime d) = PStr (strftime_mdY lib d)"
| "serialize lib (PDecimal r) = PFloat (float_of_decimal lib r)"
| "serialize lib (PStr s) = PStr s"
| "serialize lib (PInt i) = PInt i"
| "serialize lib (PDict kvs) = PDict kvs"
| "serialize lib (PBool b) = PBool b"
| "serialize lib (PFloat r) = PFloat r"
| "serialize lib PNone = PNone"
| "serialize lib (PBytes s) = PNone"
| "serialize lib (PList xs) = PNone"
| "serialize lib (PTuple xs) = PNone"

section \<open>The spreadsheet writer\<close>

text \<open>
  The format object of the spreadsheet library, as the settings \<^verbatim>\<open>Formatter.set_format\<close> can
  make on it; a fresh one (\<^verbatim>\<open>workbook.add_format()\<close>) has none.
\<close>

record xformat =
  num_format :: pyval
  font_color :: pyval
  fmt_bg_color :: pyval
  bold :: bool
  italic :: bool
  underline :: bool
  font_strikeout :: bool
  border_top :: nat
  border_bottom :: nat
  border_left :: nat
  border_right :: nat

definition add_format :: xformat where
  "add_format = \<lparr> num_format = PNone, font_color = PNone, fmt_bg_color = PNone,
                   bold = False, italic = False, underline = False, font_strikeout = False,
                   border_top = 0, border_bottom = 0, border_left = 0, border_right = 0 \<rparr>"

text \<open>What a \<^verbatim>\<open>for x in v\<close> loop runs over; a value that is not iterable raises.\<close>

fun py_iter :: "pyval \<Rightarrow> error + pyval list" where
  "py_iter (PList xs) = Inr xs"
| "py_iter (PTuple xs) = Inr xs"
| "py_iter (PStr s) = Inr (map (\<lambda>c. PStr [c]) s)"
| "py_iter (PBytes s) = Inr (map (\<lambda>c. PInt (of_char c)) s)"
| "py_iter (PDict kvs) = Inr (map (\<lambda>kv. PStr (fst kv)) kvs)"
| "py_iter v = Inl TypeError"

definition set_font_style :: "pyval \<Rightarrow> xformat \<Rightarrow> xformat" where
  "set_font_style fs x =
     (let x1 = (if fs = PStr ''bold'' then x\<lparr>bold := True\<rparr> else x);
          x2 = (if fs = PStr ''italics'' then x1\<lparr>italic := True\<rparr> else x1);
          x3 = (if fs = PStr ''underline'' then x2\<lparr>underline := True\<rparr> else x2)
      in if fs = PStr ''strikethrough'' then x3\<lparr>font_strikeout := True\<rparr> else x3)"

definition set_border :: "pyval \<Rightarrow> xformat \<Rightarrow> xformat" where
  "set_border border x =
     (let x1 = (if border = PStr ''top'' then x\<lparr>border_top := 2\<rparr> else x);
          x2 = (if border = PStr ''bottom'' then x1\<lparr>border_bottom := 2\<rparr> else x1);
          x3 = (if border = PStr ''left'' then x2\<lparr>border_left := 2\<rparr> else x2)
      in if border = PStr ''right'' then x3\<lparr>border_right := 2\<rparr> else x3)"

definition set_format :: "Formatter \<Rightarrow> xformat \<Rightarrow> error + xformat" where
  "set_format f input_format =
     (let x1 = (if cell_str_format f \<noteq> PNone
                then input_format\<lparr>num_format := cell_str_format f\<rparr> else input_format);
          x2 = (if text_color f \<noteq> PNone then x1\<lparr>font_color := text_color f\<rparr> else x1);
          x3 = (if bg_color f \<noteq> PNone then x2\<lparr>fmt_bg_color := bg_color f\<rparr> else x2)
      in case (if font_styles f \<noteq> PNone
               then (case py_iter (font_styles f) of
                       Inl e \<Rightarrow> Inl e
                     | Inr fss \<Rightarrow> Inr (fold set_font_style fss x3))
               else Inr x3) of
           Inl e \<Rightarrow> Inl e
         | Inr x4 \<Rightarrow>
             (if cell_borders f \<noteq> PNone
              then (case py_iter (cell_borders f) of
                      Inl e \<Rightarrow> Inl e
                    | Inr bs \<Rightarrow> Inr (fold set_border bs x4))
              else Inr x4))"

text \<open>
  The worksheet of the spreadsheet library is the sequence of the \<^verbatim>\<open>write(row, col, value,
  format)\<close> calls made on it. \<^verbatim>\<open>ExcelUtils\<close> holds the workbook (here: the path it was opened
  at), the current sheet, the cursor \<^verbatim>\<open>_offset\<close> (here \<open>cur_offset\<close>) and, once \<^verbatim>\<open>create_new\<close>
  has opened a workbook, its \<^verbatim>\<open>path\<close> (here \<open>self_path\<close>).
\<close>

record sheet =
  sheet_name :: string
  writes :: "(int \<times> int \<times> pyval \<times> xformat) list"

record ExcelUtils =
  workbook :: "string option"
  current_sheet :: "sheet option"
  path_or_bytes_stream :: "string option"
  cur_offset :: int
  self_path :: "string option"

definition ExcelUtils_init :: ExcelUtils where
  "ExcelUtils_init = \<lparr> workbook = None, current_sheet = None, path_or_bytes_stream = None,
                        cur_offset = 0, self_path = None \<rparr>"

definition write_cell :: "ExcelUtils \<Rightarrow> int \<Rightarrow> int \<Rightarrow> pyval \<Rightarrow> Formatter \<Rightarrow> error + ExcelUtils" where
  "write_cell self row_idx col_idx v formatter =
     (case workbook self of
        None \<Rightarrow> Inl AttributeError
      | Some wb \<Rightarrow>
          (case set_format formatter add_format of
             Inl e \<Rightarrow> Inl e
           | Inr cell_format \<Rightarrow>
               (case current_sheet self of
                  None \<Rightarrow> Inl AttributeError
                | Some sh \<Rightarrow>
                    Inr (self\<lparr>current_sheet :=
                           Some (sh\<lparr>writes := writes sh @ [(row_idx, col_idx, v, cell_format)]\<rparr>)\<rparr>))))"

text \<open>
  The inner loop of every write path: the items of one row, from column \<open>col_idx\<close> on, each
  serialised, formatted by the instructions at (\<open>fmt_row\<close>, column) and written at
  (\<open>row_idx\<close>, column).
\<close>

fun write_items ::
  "pylib \<Rightarrow> instructions option \<Rightarrow> int \<Rightarrow> int \<Rightarrow> int \<Rightarrow> pyval list \<Rightarrow> ExcelUtils \<Rightarrow> error + ExcelUtils" where
  "write_items lib instr fmt_row row_idx col_idx [] self = Inr self"
| "write_items lib instr fmt_row row_idx col_idx (item # items) self =
     (case convert_instructions_to_formats instr fmt_row col_idx of
        Inl e \<Rightarrow> Inl e
      | Inr formatter \<Rightarrow>
          (case write_cell self row_idx col_idx (serialize lib item) formatter of
             Inl e \<Rightarrow> Inl e
           | Inr self' \<Rightarrow> write_items lib instr fmt_row row_idx (col_idx + 1) items self'))"

text \<open>The loop of \<^verbatim>\<open>write_row\<close> over a nested list: one sheet row for each element.\<close>

fun write_nested ::
  "pylib \<Rightarrow> instructions option \<Rightarrow> int \<Rightarrow> int \<Rightarrow> pyval list \<Rightarrow> int \<Rightarrow> ExcelUtils
     \<Rightarrow> error + (int \<times> ExcelUtils)" where
  "write_nested lib instr offset row_idx [] new_offset self = Inr (new_offset, self)"
| "write_nested lib instr offset row_idx (row # rows) new_offset self =
     (case py_iter row of
        Inl e \<Rightarrow> Inl e
      | Inr items \<Rightarrow>
          (case write_items lib instr row_idx (row_idx + offset) 0 items self of
             Inl e \<Rightarrow> Inl e
           | Inr self' \<Rightarrow> write_nested lib instr offset (row_idx + 1) rows (new_offset + 1) self'))"

definition is_list_or_tuple :: "pyval \<Rightarrow> bool" where
  "is_list_or_tuple v = (case v of PList xs \<Rightarrow> True | PTuple xs \<Rightarrow> True | _ \<Rightarrow> False)"

text \<open>
  \<^verbatim>\<open>write_row(values, offset, instructions)\<close>: the result is the returned offset and the writer,
  whose cursor is set to it.
\<close>

definition write_row ::
  "pylib \<Rightarrow> ExcelUtils \<Rightarrow> pyval list \<Rightarrow> int option \<Rightarrow> instructions option
     \<Rightarrow> error + (int \<times> ExcelUtils)" where
  "write_row lib self vals offset_arg instr =
     (let is_nested = (case vals of [] \<Rightarrow> None | v # vs \<Rightarrow> Some (is_list_or_tuple v));
          offset = (case offset_arg of None \<Rightarrow> cur_offset self | Some off \<Rightarrow> off);
          new_offset = offset
      in case (if is_nested = Some True
               then write_nested lib instr offset 0 vals new_offset self
               else if is_nested = Some False
               then (case write_items lib instr offset offset 0 vals self of
                       Inl e \<Rightarrow> Inl e
                     | Inr self' \<Rightarrow> Inr (new_offset + 1, self'))
               else Inr (new_offset, self)) of
           Inl e \<Rightarrow> Inl e
         | Inr (new_offset', self') \<Rightarrow> Inr (new_offset', self'\<lparr>cur_offset := new_offset'\<rparr>))"

text \<open>The header loop of \<^verbatim>\<open>create_new\<close>: the headers are written as they are, at row 0.\<close>

fun write_headers ::
  "instructions option \<Rightarrow> int \<Rightarrow> pyval list \<Rightarrow> ExcelUtils \<Rightarrow> error + ExcelUtils" where
  "write_headers instr idx [] self = Inr self"
| "write_headers instr idx (header # hs) self =
     (case convert_instructions_to_formats instr 0 idx of
        Inl e \<Rightarrow> Inl e
      | Inr formatter \<Rightarrow>
          (case write_cell self 0 idx header formatter of
             Inl e \<Rightarrow> Inl e
           | Inr self' \<Rightarrow> write_headers instr (idx + 1) hs self'))"

text \<open>
  The row loop of \<^verbatim>\<open>create_new\<close>: a row that is a list or a tuple is written, any other row is
  passed over. The loop variable \<open>row_idx\<close> is returned as the loop leaves it.
\<close>

fun create_rows ::
  "pylib \<Rightarrow> instructions option \<Rightarrow> int \<Rightarrow> int \<Rightarrow> pyval list \<Rightarrow> int \<Rightarrow> ExcelUtils
     \<Rightarrow> error + (int \<times> ExcelUtils)" where
  "create_rows lib instr offset i [] row_idx self = Inr (row_idx, self)"
| "create_rows lib instr offset i (row # rows) row_idx self =
     (case (case row of
              PList xs \<Rightarrow> write_items lib instr (i + offset) (i + offset) 0 xs self
            | PTuple xs \<Rightarrow> write_items lib instr (i + offset) (i + offset) 0 xs self
            | _ \<Rightarrow> Inr self) of
        Inl e \<Rightarrow> Inl e
      | Inr self' \<Rightarrow> create_rows lib instr offset (i + 1) rows i self')"

text \<open>
  \<^verbatim>\<open>create_new(path, values, overwrite, sheet_name, separate_headers, instructions)\<close>.
  \<open>path_exists\<close> is what \<^verbatim>\<open>os.path.exists(path)\<close> answers. The values are a list of rows (the
  branch for a database query set is not modelled).
\<close>

definition create_new ::
  "pylib \<Rightarrow> bool \<Rightarrow> ExcelUtils \<Rightarrow> string \<Rightarrow> pyval list \<Rightarrow> bool \<Rightarrow> string \<Rightarrow> pyval list option
     \<Rightarrow> instructions option \<Rightarrow> error + (int \<times> ExcelUtils)" where
  "create_new lib path_exists self path vals overwrite sheet separate_headers instr =
     (if path_exists \<and> \<not> overwrite then Inl RuntimeError
      else
        (let self1 = (if workbook self = None
                      then self\<lparr>self_path := Some path, workbook := Some path\<rparr> else self);
             self2 = (if current_sheet self1 = None
                      then self1\<lparr>current_sheet := Some \<lparr>sheet_name = sheet, writes = []\<rparr>\<rparr>
                      else self1);
             hs = (case separate_headers of None \<Rightarrow> [] | Some hs \<Rightarrow> hs);
             has_headers = (hs \<noteq> [])
         in case (if has_headers then write_headers instr 0 hs self2 else Inr self2) of
              Inl e \<Rightarrow> Inl e
            | Inr self3 \<Rightarrow>
                (let offset = (if has_headers then 1 else 0) in
                 case create_rows lib instr offset 0 vals 0 self3 of
                   Inl e \<Rightarrow> Inl e
                 | Inr (row_idx, self4) \<Rightarrow>
                     Inr (row_idx + 1 + offset,
                          self4\<lparr>path_or_bytes_stream := Some path,
                                 cur_offset := row_idx + 1 + offset\<rparr>))))"

section \<open>Reading rows\<close>

text \<open>
  Equality of Python values (\<^verbatim>\<open>==\<close>): numbers compare by value across \<^verbatim>\<open>bool\<close>, \<^verbatim>\<open>int\<close>,
  \<^verbatim>\<open>float\<close> and \<^verbatim>\<open>Decimal\<close>; lists and tuples compare item by item; dicts compare as maps.
\<close>

fun py_num :: "pyval \<Rightarrow> rat option" where
  "py_num (PBool b) = Some (if b then 1 else 0)"
| "py_num (PInt i) = Some (of_int i)"
| "py_num (PFloat r) = Some r"
| "py_num (PDecimal r) = Some r"
| "py_num v = None"

fun py_eq :: "pyval \<Rightarrow> pyval \<Rightarrow> bool"
  and py_eq_list :: "pyval list \<Rightarrow> pyval list \<Rightarrow> bool"
  and py_eq_dict :: "(string \<times> pyval) list \<Rightarrow> (string \<times> pyval) list \<Rightarrow> bool" where
  "py_eq PNone b = (b = PNone)"
| "py_eq (PBool x) b = (py_num b = Some (if x then 1 else 0))"
| "py_eq (PInt i) b = (py_num b = Some (of_int i))"
| "py_eq (PFloat r) b = (py_num b = Some r)"
| "py_eq (PDecimal r) b = (py_num b = Some r)"
| "py_eq (PStr s) b = (b = PStr s)"
| "py_eq (PBytes s) b = (b = PBytes s)"
| "py_eq (PDatetime d) b = (b = PDatetime d)"
| "py_eq (PList xs) b = (case b of PList ys \<Rightarrow> py_eq_list xs ys | _ \<Rightarrow> False)"
| "py_eq (PTuple xs) b = (case b of PTuple ys \<Rightarrow> py_eq_list xs ys | _ \<Rightarrow> False)"
| "py_eq (PDict kvs) b =
     (case b of PDict kvs' \<Rightarrow> length kvs = length kvs' \<and> py_eq_dict kvs kvs' | _ \<Rightarrow> False)"
| "py_eq_list [] ys = (ys = [])"
| "py_eq_list (x # xs) ys = (case ys of [] \<Rightarrow> False | y # ys' \<Rightarrow> py_eq x y \<and> py_eq_list xs ys')"
| "py_eq_dict [] kvs' = True"
| "py_eq_dict ((k, v) # kvs) kvs' =
     ((case map_of kvs' k of None \<Rightarrow> False | Some w \<Rightarrow> py_eq v w) \<and> py_eq_dict kvs kvs')"

text \<open>
  \<^verbatim>\<open>ExcelUtils.is_datetime\<close>: the first accepted format that parses gives the date; otherwise
  the result is \<^verbatim>\<open>(False, None)\<close> when a format of the second list parses and
  \<^verbatim>\<open>(True, None)\<close> when none does.
\<close>

definition accepted_formats :: "string list" where
  "accepted_formats =
     [''%Y-%m-%d %H:%M:%SZ'', ''%m/%d/%Y %H:%M%SZ'', ''%Y-%m-%d'', ''%m/%d/%Y'', ''%m/%d'',
      ''%m-%d'', ''%m/%d/%Y %H:%M'', ''%m/%d/%Y %I:%M'', ''%Y-%m-%d %H:%M'', ''%Y-%m-%d %I:%M'']"

definition bad_formats :: "string list" where
  "bad_formats = [''%m-%Y-%d'', ''%m-%Y'', ''%m-%Y-%d %H:%M'']"

fun first_parse :: "pylib \<Rightarrow> string \<Rightarrow> string list \<Rightarrow> datetime option" where
  "first_parse lib param [] = None"
| "first_parse lib param (fmt # fmts) =
     (case strptime lib param fmt of
        Some d \<Rightarrow> Some d
      | None \<Rightarrow> first_parse lib param fmts)"

definition is_datetime :: "pylib \<Rightarrow> string \<Rightarrow> bool \<times> pyval" where
  "is_datetime lib param =
     (case first_parse lib param accepted_formats of
        Some d \<Rightarrow> (True, PDatetime d)
      | None \<Rightarrow>
          (let satisfied_bad = list_ex (\<lambda>fmt. strptime lib param fmt \<noteq> None) bad_formats
           in if satisfied_bad then (False, PNone) else (True, PNone)))"

text \<open>
  The coercion of one cell of a date column in \<^verbatim>\<open>get_rows\<close>. For a number (\<^verbatim>\<open>int\<close>, \<^verbatim>\<open>float\<close>,
  and \<^verbatim>\<open>bool\<close>, which is an \<^verbatim>\<open>int\<close>) the code calls \<^verbatim>\<open>xldate_as_datetime\<close> by its bare name; the
  module imports \<^verbatim>\<open>xlrd\<close> only and defines no such name, so the call raises \<^verbatim>\<open>NameError\<close>.
  \<^verbatim>\<open>None\<close> and the empty string become \<^verbatim>\<open>None\<close>, a string goes through \<^verbatim>\<open>is_datetime\<close> (whose
  flag is dropped), anything else raises \<^verbatim>\<open>RuntimeError\<close>.
\<close>

fun sanitize_date :: "pylib \<Rightarrow> pyval \<Rightarrow> error + pyval" where
  "sanitize_date lib (PBool b) = Inl NameError"
| "sanitize_date lib (PInt i) = Inl NameError"
| "sanitize_date lib (PFloat r) = Inl NameError"
| "sanitize_date lib PNone = Inr PNone"
| "sanitize_date lib (PStr s) = (if s = [] then Inr PNone else Inr (snd (is_datetime lib s)))"
| "sanitize_date lib v = Inl RuntimeError"

text \<open>
  The loop of \<^verbatim>\<open>get_rows\<close> over the cells of one row. The inner loop over the filters compares
  the cell with the filter of its own index, when there is one. \<open>filters\<close> and
  \<open>sanitize_dates\<close> are the lists given, empty when the argument is \<^verbatim>\<open>None\<close>.
\<close>

fun get_row_cells ::
  "pylib \<Rightarrow> pyval list \<Rightarrow> int list \<Rightarrow> nat \<Rightarrow> pyval list \<Rightarrow> pyval list \<Rightarrow> bool
     \<Rightarrow> error + (pyval list \<times> bool)" where
  "get_row_cells lib filters sanitize_dates cell_idx [] row_values disregard =
     Inr (row_values, disregard)"
| "get_row_cells lib filters sanitize_dates cell_idx (cell_val # cells) row_values disregard =
     (let disregard' =
            (if filters \<noteq> [] \<and> cell_idx < length filters
                \<and> \<not> py_eq cell_val (filters ! cell_idx)
             then True else disregard)
      in if \<not> disregard'
         then (case (if sanitize_dates \<noteq> [] \<and> int cell_idx \<in> set sanitize_dates
                     then sanitize_date lib cell_val else Inr cell_val) of
                 Inl e \<Rightarrow> Inl e
               | Inr v \<Rightarrow>
                   get_row_cells lib filters sanitize_dates (cell_idx + 1) cells
                     (row_values @ [v]) disregard')
         else get_row_cells lib filters sanitize_dates (cell_idx + 1) cells row_values disregard')"

text \<open>
  The loop over the rows. The accumulator \<open>rows\<close> is \<open>Some\<close> list, or \<open>None\<close> when it is not
  a list but the row generator of the sheet (\<^verbatim>\<open>rows = self.current_sheet.get_rows()\<close>), which has
  no \<^verbatim>\<open>append\<close>.
\<close>

fun get_rows_loop ::
  "pylib \<Rightarrow> pyval list \<Rightarrow> int list \<Rightarrow> pyval list list option \<Rightarrow> pyval list list
     \<Rightarrow> error + pyval list list option" where
  "get_rows_loop lib filters sanitize_dates rows [] = Inr rows"
| "get_rows_loop lib filters sanitize_dates rows (row # sheet_rows) =
     (case get_row_cells lib filters sanitize_dates 0 row [] False of
        Inl e \<Rightarrow> Inl e
      | Inr (row_values, disregard) \<Rightarrow>
          if row_values \<noteq> [] \<and> \<not> disregard
          then (case rows of
                  None \<Rightarrow> Inl AttributeError
                | Some rs \<Rightarrow>
                    get_rows_loop lib filters sanitize_dates (Some (rs @ [row_values])) sheet_rows)
          else get_rows_loop lib filters sanitize_dates rows sheet_rows)"

text \<open>
  \<^verbatim>\<open>get_rows(filters, grab_headers, sanitize_dates)\<close> on the current sheet of the reading
  library, given as the list of its rows of cell values. The result is \<open>Some\<close> list of rows,
  or \<open>None\<close> for the row generator of the sheet.
\<close>

definition get_rows ::
  "pylib \<Rightarrow> pyval list list \<Rightarrow> pyval list option \<Rightarrow> bool \<Rightarrow> int list option
     \<Rightarrow> error + pyval list list option" where
  "get_rows lib current_sheet_rows filters_arg grab_headers sanitize_arg =
     (let filters = (case filters_arg of None \<Rightarrow> [] | Some fs \<Rightarrow> fs);
          sanitize_dates = (case sanitize_arg of None \<Rightarrow> [] | Some sd \<Rightarrow> sd);
          rows = (if grab_headers \<and> filters = [] then None else Some []);
          start = (if grab_headers then 0 else 1)
      in get_rows_loop lib filters sanitize_dates rows (drop start current_sheet_rows))"

section \<open>Reading JSON values\<close>

text \<open>
  A parsed JSON document is a \<open>pyval\<close> built from \<open>PDict\<close>, \<open>PList\<close>, \<open>PStr\<close>, \<open>PInt\<close>, \<open>PFloat\<close>,
  \<open>PBool\<close> and \<open>PNone\<close>. \<^verbatim>\<open>d.get(k, default)\<close> on a dict, and on any object (only a dict has
  the method).
\<close>

definition dict_get :: "(string \<times> pyval) list \<Rightarrow> string \<Rightarrow> pyval \<Rightarrow> pyval" where
  "dict_get d k dflt = (case map_of d k of None \<Rightarrow> dflt | Some v \<Rightarrow> v)"

fun py_get :: "pyval \<Rightarrow> string \<Rightarrow> pyval \<Rightarrow> error + pyval" where
  "py_get (PDict d) k dflt = Inr (dict_get d k dflt)"
| "py_get v k dflt = Inl AttributeError"

text \<open>\<^verbatim>\<open>x[0]\<close>.\<close>

fun py_index0 :: "pyval \<Rightarrow> error + pyval" where
  "py_index0 (PList xs) = (case xs of [] \<Rightarrow> Inl IndexError | x # xs' \<Rightarrow> Inr x)"
| "py_index0 (PTuple xs) = (case xs of [] \<Rightarrow> Inl IndexError | x # xs' \<Rightarrow> Inr x)"
| "py_index0 (PStr s) = (case s of [] \<Rightarrow> Inl IndexError | c # s' \<Rightarrow> Inr (PStr [c]))"
| "py_index0 (PBytes s) = (case s of [] \<Rightarrow> Inl IndexError | c # s' \<Rightarrow> Inr (PInt (of_char c)))"
| "py_index0 (PDict d) = Inl KeyError"
| "py_index0 v = Inl TypeError"

text \<open>
  \<^verbatim>\<open>str(v)\<close> and \<^verbatim>\<open>'{}'.format(v)\<close>: a string is itself; \<^verbatim>\<open>None\<close>, the booleans and the
  integers are written out; the text of any other value is the library's.
\<close>

fun py_str :: "pylib \<Rightarrow> pyval \<Rightarrow> string" where
  "py_str lib (PStr s) = s"
| "py_str lib PNone = ''None''"
| "py_str lib (PBool b) = (if b then ''True'' else ''False'')"
| "py_str lib (PInt i) = str_int i"
| "py_str lib v = str_of lib v"

text \<open>\<^verbatim>\<open>sep.join(strings)\<close> on a list of strings, and on any object.\<close>

fun join :: "string \<Rightarrow> string list \<Rightarrow> string" where
  "join sep [] = []"
| "join sep [x] = x"
| "join sep (x # y # xs) = x @ sep @ join sep (y # xs)"

fun the_strs :: "pyval list \<Rightarrow> error + string list" where
  "the_strs [] = Inr []"
| "the_strs (PStr s # vs) = (case the_strs vs of Inl e \<Rightarrow> Inl e | Inr ss \<Rightarrow> Inr (s # ss))"
| "the_strs (v # vs) = Inl TypeError"

definition py_join :: "string \<Rightarrow> pyval \<Rightarrow> error + string" where
  "py_join sep v =
     (case py_iter v of
        Inl e \<Rightarrow> Inl e
      | Inr items \<Rightarrow> (case the_strs items of Inl e \<Rightarrow> Inl e | Inr ss \<Rightarrow> Inr (join sep ss)))"

text \<open>\<^verbatim>\<open>x in s\<close> for two strings: \<open>x\<close> occurs in \<open>s\<close> as a substring.\<close>

fun starts_with :: "string \<Rightarrow> string \<Rightarrow> bool" where
  "starts_with s [] = True"
| "starts_with [] (c # x) = False"
| "starts_with (d # s) (c # x) = (d = c \<and> starts_with s x)"

fun str_contains :: "string \<Rightarrow> string \<Rightarrow> bool" where
  "str_contains [] x = (x = [])"
| "str_contains (c # s) x = (starts_with (c # s) x \<or> str_contains s x)"

section \<open>Activity detail formatters\<close>

definition nl :: char where
  "nl = CHR 0x0A"

text \<open>
  The parameter loop of \<^verbatim>\<open>ParseLookup\<close> and \<^verbatim>\<open>ParseSPROC\<close> over a dict of parameters, and over
  any object: the loop body calls \<^verbatim>\<open>param_obj.get\<close>, which only a dict has.
\<close>

fun sproc_param_details :: "pylib \<Rightarrow> (string \<times> pyval) list \<Rightarrow> error + string list" where
  "sproc_param_details lib [] = Inr []"
| "sproc_param_details lib ((param, pv) # rest) =
     (case py_get pv ''value'' PNone of
        Inl e \<Rightarrow> Inl e
      | Inr val \<Rightarrow>
          (let val' = (case val of
                         PDict vd \<Rightarrow> py_str lib (dict_get vd ''value'' PNone)
                       | _ \<Rightarrow> py_str lib val)
           in case sproc_param_details lib rest of
                Inl e \<Rightarrow> Inl e
              | Inr ds \<Rightarrow> Inr ((param @ '': '' @ val') # ds)))"

definition sproc_params :: "pylib \<Rightarrow> pyval \<Rightarrow> error + string list" where
  "sproc_params lib param_obj =
     (case param_obj of
        PDict d \<Rightarrow> sproc_param_details lib d
      | _ \<Rightarrow> (case py_iter param_obj of
                 Inl e \<Rightarrow> Inl e
               | Inr [] \<Rightarrow> Inr []
               | Inr (x # xs) \<Rightarrow> Inl AttributeError))"

text \<open>
  Each \<^verbatim>\<open>parse(input_data)\<close> takes the entries of the activity object and returns a string or
  \<^verbatim>\<open>None\<close>, or raises.
\<close>

definition ParseLookup_parse :: "pylib \<Rightarrow> (string \<times> pyval) list \<Rightarrow> error + pyval" where
  "ParseLookup_parse lib input_data =
     (let typeProperties = dict_get input_data ''typeProperties'' (PStr [])
      in if truthy typeProperties
         then (case py_get typeProperties ''source'' (PStr []) of
                 Inl e \<Rightarrow> Inl e
               | Inr source \<Rightarrow>
                   if truthy source
                   then (case py_get source ''sqlReaderStoredProcedureName'' (PStr []) of
                           Inl e \<Rightarrow> Inl e
                         | Inr sproc_name \<Rightarrow>
                             (case py_get source ''storedProcedureParameters'' (PStr []) of
                                Inl e \<Rightarrow> Inl e
                              | Inr param_obj \<Rightarrow>
                                  (case sproc_params lib param_obj of
                                     Inl e \<Rightarrow> Inl e
                                   | Inr param_details \<Rightarrow>
                                       Inr (PStr (py_str lib sproc_name @ '' ,    Parameters: ''
                                                    @ join '','' param_details)))))
                   else Inr PNone)
         else Inr PNone)"

definition ParseIfCondition_parse :: "pylib \<Rightarrow> (string \<times> pyval) list \<Rightarrow> error + pyval" where
  "ParseIfCondition_parse lib input_data =
     (let typeProperties = dict_get input_data ''typeProperties'' (PStr [])
      in if truthy typeProperties
         then (case py_get typeProperties ''expression'' (PStr []) of
                 Inl e \<Rightarrow> Inl e
               | Inr expression \<Rightarrow>
                   if truthy expression
                   then (case py_get expression ''value'' (PStr []) of
                           Inl e \<Rightarrow> Inl e
                         | Inr exp_val \<Rightarrow> Inr (PStr (''Expression:     '' @ py_str lib exp_val)))
                   else Inr PNone)
         else Inr PNone)"

definition ParseSPROC_parse :: "pylib \<Rightarrow> (string \<times> pyval) list \<Rightarrow> error + pyval" where
  "ParseSPROC_parse lib input_data =
     (let typeProperties = dict_get input_data ''typeProperties'' (PStr [])
      in if truthy typeProperties
         then (case py_get typeProperties ''storedProcedureName'' (PStr []) of
                 Inl e \<Rightarrow> Inl e
               | Inr sproc_name \<Rightarrow>
                   (case py_get typeProperties ''storedProcedureParameters'' (PStr []) of
                      Inl e \<Rightarrow> Inl e
                    | Inr param_obj \<Rightarrow>
                        (case sproc_params lib param_obj of
                           Inl e \<Rightarrow> Inl e
                         | Inr param_details \<Rightarrow>
                             Inr (PStr (''Stored procedure name '' @ py_str lib sproc_name
                                          @ '' ,    Parameters: '' @ join '','' param_details)))))
         else Inr PNone)"

definition ParseWebActivity_parse :: "pylib \<Rightarrow> (string \<times> pyval) list \<Rightarrow> error + pyval" where
  "ParseWebActivity_parse lib input_data =
     (let typeProperties = dict_get input_data ''typeProperties'' (PStr [])
      in if truthy typeProperties
         then (case py_get typeProperties ''url'' (PStr []) of
                 Inl e \<Rightarrow> Inl e
               | Inr url_name \<Rightarrow>
                   (case py_get typeProperties ''method'' (PStr []) of
                      Inl e \<Rightarrow> Inl e
                    | Inr method_name \<Rightarrow>
                        (case py_get typeProperties ''header'' (PStr []) of
                           Inl e \<Rightarrow> Inl e
                         | Inr header_name \<Rightarrow>
                             (case (if truthy header_name
                                    then py_get header_name ''Content-Type'' (PStr [])
                                    else Inr PNone) of
                                Inl e \<Rightarrow> Inl e
                              | Inr content \<Rightarrow>
                                  (case py_get typeProperties ''body'' (PStr []) of
                                     Inl e \<Rightarrow> Inl e
                                   | Inr Body_properties \<Rightarrow>
                                       Inr (PStr (''Http request URL: '' @ py_str lib url_name
                                              @ '' '' @ [nl, nl] @ '' Method Name : ''
                                              @ py_str lib method_name
                                              @ '' '' @ [nl, nl] @ '' Body properties : ''
                                              @ py_str lib Body_properties)))))))
         else Inl UnboundLocalError)"

definition ParseWaitActivity_parse :: "pylib \<Rightarrow> (string \<times> pyval) list \<Rightarrow> error + pyval" where
  "ParseWaitActivity_parse lib input_data =
     (let typeProperties = dict_get input_data ''typeProperties'' (PStr [])
      in if truthy typeProperties
         then (case py_get typeProperties ''waitTimeInSeconds'' (PStr []) of
                 Inl e \<Rightarrow> Inl e
               | Inr wait_val \<Rightarrow> Inr (PStr (''Wait time in Seconds:  '' @ py_str lib wait_val)))
         else Inr PNone)"

definition ParseDeleteActivity_parse :: "pylib \<Rightarrow> (string \<times> pyval) list \<Rightarrow> error + pyval" where
  "ParseDeleteActivity_parse lib input_data =
     (let typeProperties = dict_get input_data ''typeProperties'' (PStr [])
      in if truthy typeProperties
         then (case py_get typeProperties ''dataset'' (PStr []) of
                 Inl e \<Rightarrow> Inl e
               | Inr dataset_name \<Rightarrow>
                   (case py_get dataset_name ''referenceName'' (PStr []) of
                      Inl e \<Rightarrow> Inl e
                    | Inr reference_Name \<Rightarrow>
                        (case py_get typeProperties ''storeSettings'' (PStr []) of
                           Inl e \<Rightarrow> Inl e
                         | Inr store_settings \<Rightarrow>
                             if truthy store_settings
                             then (case py_get store_settings ''wildcardFileName'' (PStr []) of
                                     Inl e \<Rightarrow> Inl e
                                   | Inr wildcardFileName \<Rightarrow>
                                       Inr (PStr (''DataSet name-'' @ py_str lib reference_Name
                                              @ '' '' @ [nl] @ ''FileName-''
                                              @ py_str lib wildcardFileName)))
                             else Inr PNone)))
         else Inr PNone)"

definition ParseExecutePipeline_parse :: "pylib \<Rightarrow> (string \<times> pyval) list \<Rightarrow> error + pyval" where
  "ParseExecutePipeline_parse lib input_data =
     (let typeProperties = dict_get input_data ''typeProperties'' (PStr [])
      in if truthy typeProperties
         then (case py_get typeProperties ''pipeline'' (PStr []) of
                 Inl e \<Rightarrow> Inl e
               | Inr pipeline \<Rightarrow>
                   if truthy pipeline
                   then (case py_get pipeline ''referenceName'' (PStr []) of
                           Inl e \<Rightarrow> Inl e
                         | Inr ref \<Rightarrow> Inr (PStr (''Child pipeline Name : '' @ py_str lib ref)))
                   else Inr PNone)
         else Inr PNone)"

text \<open>
  \<^verbatim>\<open>ParseCopyActivity\<close>. The two reference names are local variables that are bound only when
  \<^verbatim>\<open>inputs\<close> (\<^verbatim>\<open>outputs\<close>) is there: \<open>None\<close> stands for the unbound variable, and formatting it
  raises \<^verbatim>\<open>UnboundLocalError\<close>.
\<close>

definition first_referenceName :: "(string \<times> pyval) list \<Rightarrow> string \<Rightarrow> error + pyval option" where
  "first_referenceName input_data k =
     (let inputs = dict_get input_data k (PStr [])
      in if truthy inputs
         then (case py_index0 inputs of
                 Inl e \<Rightarrow> Inl e
               | Inr x \<Rightarrow> (case py_get x ''referenceName'' (PStr []) of
                             Inl e \<Rightarrow> Inl e
                           | Inr r \<Rightarrow> Inr (Some r)))
         else Inr None)"

definition copy_format ::
  "pylib \<Rightarrow> pyval option \<Rightarrow> pyval option \<Rightarrow> pyval \<Rightarrow> pyval \<Rightarrow> error + pyval" where
  "copy_format lib inputreferenceName outputreferenceName v_source v_foldername =
     (case inputreferenceName of
        None \<Rightarrow> Inl UnboundLocalError
      | Some i \<Rightarrow>
          (case outputreferenceName of
             None \<Rightarrow> Inl UnboundLocalError
           | Some ou \<Rightarrow>
               Inr (PStr (''Input DataSet : '' @ py_str lib i @ '' '' @ [nl]
                            @ ''Output DataSet : '' @ py_str lib ou @ [nl]
                            @ '' File name : '' @ py_str lib v_source @ [nl]
                            @ ''Folder Name or Path:'' @ py_str lib v_foldername))))"

definition ParseCopyActivity_parse :: "pylib \<Rightarrow> (string \<times> pyval) list \<Rightarrow> error + pyval" where
  "ParseCopyActivity_parse lib input_data =
     (let typeProperties = dict_get input_data ''typeProperties'' (PStr [])
      in case first_referenceName input_data ''inputs'' of
           Inl e \<Rightarrow> Inl e
         | Inr inputreferenceName \<Rightarrow>
        (case first_referenceName input_data ''outputs'' of
           Inl e \<Rightarrow> Inl e
         | Inr outputreferenceName \<Rightarrow>
        if truthy typeProperties
        then (case py_get typeProperties ''source'' (PStr []) of
                Inl e \<Rightarrow> Inl e
              | Inr source \<Rightarrow>
             if truthy source
             then (case source of
                     PDict sd \<Rightarrow>
                       (let type = dict_get sd ''type'' (PStr []);
                            storeSettings = dict_get sd ''storeSettings'' (PStr []);
                            sqlReader = dict_get sd ''sqlReaderStoredProcedureName'' (PStr []);
                            second =
                              (if type = PStr ''SqlDWSource'' \<and> truthy sqlReader
                               then copy_format lib inputreferenceName outputreferenceName
                                      sqlReader (PStr [])
                               else Inr PNone)
                        in if type \<noteq> PStr ''SqlDWSink'' \<and> truthy storeSettings
                           then (case py_get storeSettings ''wildcardFileName'' (PStr []) of
                                   Inl e \<Rightarrow> Inl e
                                 | Inr v_source \<Rightarrow>
                                     if truthy v_source
                                     then (case py_get storeSettings ''wildcardFolderPath''
                                                  (PStr []) of
                                             Inl e \<Rightarrow> Inl e
                                           | Inr v_foldername \<Rightarrow>
                                               copy_format lib inputreferenceName
                                                 outputreferenceName v_source v_foldername)
                                     else second)
                           else second)
                   | _ \<Rightarrow> Inl AttributeError)
             else Inr PNone)
        else Inr PNone))"

text \<open>The two loops of \<^verbatim>\<open>ParseNotebookActivity\<close>.\<close>

fun notebook_param_details :: "pylib \<Rightarrow> (string \<times> pyval) list \<Rightarrow> error + string list" where
  "notebook_param_details lib [] = Inr []"
| "notebook_param_details lib ((param, val) # rest) =
     (case (case val of
              PDict vd \<Rightarrow> Inr (param @ '' : '' @ py_str lib (dict_get vd ''value'' PNone))
            | PStr s \<Rightarrow> Inr (param @ '' : '' @ s)
            | _ \<Rightarrow> Inl TypeError) of
        Inl e \<Rightarrow> Inl e
      | Inr val' \<Rightarrow>
          (case notebook_param_details lib rest of
             Inl e \<Rightarrow> Inl e
           | Inr ds \<Rightarrow> Inr (val' # ds)))"

definition notebook_params :: "pylib \<Rightarrow> pyval \<Rightarrow> error + string list" where
  "notebook_params lib param_obj =
     (case param_obj of
        PDict d \<Rightarrow> notebook_param_details lib d
      | _ \<Rightarrow> (case py_iter param_obj of
                 Inl e \<Rightarrow> Inl e
               | Inr [] \<Rightarrow> Inr []
               | Inr (x # xs) \<Rightarrow> Inl AttributeError))"

definition ParseNotebookActivity_parse :: "pylib \<Rightarrow> (string \<times> pyval) list \<Rightarrow> error + pyval" where
  "ParseNotebookActivity_parse lib input_data =
     (let typeProperties = dict_get input_data ''typeProperties'' (PStr [])
      in if truthy typeProperties
         then (case py_get typeProperties ''notebookPath'' (PStr []) of
                 Inl e \<Rightarrow> Inl e
               | Inr notebook_path \<Rightarrow>
                   (case py_get typeProperties ''baseParameters'' (PStr []) of
                      Inl e \<Rightarrow> Inl e
                    | Inr param_obj \<Rightarrow>
                        (case notebook_params lib param_obj of
                           Inl e \<Rightarrow> Inl e
                         | Inr param_details \<Rightarrow>
                             (let param = fold (\<lambda>i param. i @ '','' @ [nl] @ param) param_details []
                              in Inr (PStr (''Notebook path: '' @ py_str lib notebook_path
                                              @ '' '' @ [nl, nl] @ '' Paramerters: '' @ param))))))
         else Inl UnboundLocalError)"

text \<open>The loop of \<^verbatim>\<open>ParseGetMetadataActivity\<close> over the field list.\<close>

fun metadata_attr :: "pyval list \<Rightarrow> string \<Rightarrow> error + string" where
  "metadata_attr [] attr = Inr attr"
| "metadata_attr (PStr i # rest) attr = metadata_attr rest (i @ '' , '' @ attr)"
| "metadata_attr (v # rest) attr = Inl TypeError"

definition ParseGetMetadataActivity_parse :: "pylib \<Rightarrow> (string \<times> pyval) list \<Rightarrow> error + pyval" where
  "ParseGetMetadataActivity_parse lib input_data =
     (let typeProperties = dict_get input_data ''typeProperties'' (PStr [])
      in if truthy typeProperties
         then (case py_get typeProperties ''dataset'' PNone of
                 Inl e \<Rightarrow> Inl e
               | Inr ds \<Rightarrow>
                   (case py_get ds ''referenceName'' (PStr []) of
                      Inl e \<Rightarrow> Inl e
                    | Inr dataset_name \<Rightarrow>
                        (case py_get typeProperties ''fieldList'' (PStr []) of
                           Inl e \<Rightarrow> Inl e
                         | Inr attr_obj \<Rightarrow>
                             (case py_iter attr_obj of
                                Inl e \<Rightarrow> Inl e
                              | Inr items \<Rightarrow>
                                  (case metadata_attr items [] of
                                     Inl e \<Rightarrow> Inl e
                                   | Inr attr \<Rightarrow>
                                       Inr (PStr (''Dataset name: '' @ py_str lib dataset_name
                                              @ '' '' @ [nl, nl] @ '' Metadata attributes: ''
                                              @ attr)))))))
         else Inr PNone)"

section \<open>The activity extractor\<close>

text \<open>\<^verbatim>\<open>class ADFPipelineDocGenerator\<close>: the one-shot flag, the pipeline name and the table.\<close>

record ADFPipelineDocGenerator =
  pipeline_name_flag :: bool
  pipeline_name :: string
  table_data :: "pyval list list"

definition ADFPipelineDocGenerator_init :: ADFPipelineDocGenerator where
  "ADFPipelineDocGenerator_init = \<lparr> pipeline_name_flag = True, pipeline_name = [], table_data = [] \<rparr>"

text \<open>\<^verbatim>\<open>parse_dependsOn\<close>: the loop over the entries, and the function.\<close>

fun depends_entries :: "pyval list \<Rightarrow> error + string list" where
  "depends_entries [] = Inr []"
| "depends_entries (PDict obj # rest) =
     (case dict_get obj ''activity'' (PStr []) of
        PStr activity \<Rightarrow>
          (case py_join '','' (dict_get obj ''dependencyConditions'' (PList [])) of
             Inl e \<Rightarrow> Inl e
           | Inr conds \<Rightarrow>
               (case depends_entries rest of
                  Inl e \<Rightarrow> Inl e
                | Inr names \<Rightarrow> Inr ((activity @ '':'' @ conds) # names)))
      | _ \<Rightarrow> Inl TypeError)"
| "depends_entries (v # rest) = depends_entries rest"

definition parse_dependsOn :: "pyval \<Rightarrow> error + pyval" where
  "parse_dependsOn dependency_list =
     (if truthy dependency_list
      then (case py_iter dependency_list of
              Inl e \<Rightarrow> Inl e
            | Inr objs \<Rightarrow>
                (case depends_entries objs of
                   Inl e \<Rightarrow> Inl e
                 | Inr parent_task_name \<Rightarrow> Inr (PStr (join '','' parent_task_name))))
      else Inr PNone)"

text \<open>\<^verbatim>\<open>parse_task_details\<close>: the dispatch on the type of the activity.\<close>

definition parse_task_details :: "pylib \<Rightarrow> pyval \<Rightarrow> (string \<times> pyval) list \<Rightarrow> error + pyval" where
  "parse_task_details lib task_type obj =
     (if task_type = PStr ''Lookup'' then ParseLookup_parse lib obj
      else if task_type = PStr ''IfCondition'' then ParseIfCondition_parse lib obj
      else if task_type = PStr ''SqlServerStoredProcedure'' then ParseSPROC_parse lib obj
      else if task_type = PStr ''WebActivity'' then ParseWebActivity_parse lib obj
      else if task_type = PStr ''Wait'' then ParseWaitActivity_parse lib obj
      else if task_type = PStr ''Delete'' then ParseDeleteActivity_parse lib obj
      else if task_type = PStr ''ExecutePipeline'' then ParseExecutePipeline_parse lib obj
      else if task_type = PStr ''Copy'' then ParseCopyActivity_parse lib obj
      else if task_type = PStr ''DatabricksNotebook'' then ParseNotebookActivity_parse lib obj
      else if task_type = PStr ''GetMetadata'' then ParseGetMetadataActivity_parse lib obj
      else Inr PNone)"

text \<open>
  The list \<^verbatim>\<open>tasks\<close> of both traversals, and \<^verbatim>\<open>any(x in task_type for x in tasks)\<close>: a substring
  test on a string, a membership test on a list, a tuple or the keys of a dict; any other
  value is not a container and the test raises.
\<close>

definition tasks :: "string list" where
  "tasks = [''SqlServerStoredProcedure'', ''Lookup'', ''IfCondition'', ''GetMetadata'',
            ''DatabricksNotebook'', ''WebActivity'', ''Wait'', ''Delete'', ''Copy'']"

fun any_task_in :: "pyval \<Rightarrow> error + bool" where
  "any_task_in (PStr s) = Inr (list_ex (\<lambda>x. str_contains s x) tasks)"
| "any_task_in (PList xs) = Inr (list_ex (\<lambda>x. PStr x \<in> set xs) tasks)"
| "any_task_in (PTuple xs) = Inr (list_ex (\<lambda>x. PStr x \<in> set xs) tasks)"
| "any_task_in (PDict d) = Inr (list_ex (\<lambda>x. x \<in> set (map fst d)) tasks)"
| "any_task_in v = Inl TypeError"

text \<open>
  The branch both traversals take at a \<^verbatim>\<open>name\<close> that is not the pipeline name: the activity
  is recorded when its type is recognised. \<open>input_data\<close> is the object that holds the name,
  \<open>current_task_name\<close> the name.
\<close>

definition record_activity ::
  "pylib \<Rightarrow> (string \<times> pyval) list \<Rightarrow> string \<Rightarrow> string \<Rightarrow> ADFPipelineDocGenerator
     \<Rightarrow> error + ADFPipelineDocGenerator" where
  "record_activity lib input_data current_task_name parent_task_name self =
     (let task_type = dict_get input_data ''type'' (PStr [])
      in case any_task_in task_type of
           Inl e \<Rightarrow> Inl e
         | Inr recognised \<Rightarrow>
             if recognised
             then (case parse_task_details lib task_type input_data of
                     Inl e \<Rightarrow> Inl e
                   | Inr details \<Rightarrow>
                       (let task_details = (if truthy details then details else PStr [])
                        in case parse_dependsOn (dict_get input_data ''dependsOn'' (PStr [])) of
                             Inl e \<Rightarrow> Inl e
                           | Inr dep \<Rightarrow>
                               (let task_dependency_info =
                                      (if truthy dep then dep else PStr parent_task_name)
                                in Inr (self\<lparr>table_data := table_data self @
                                          [[PStr (pipeline_name self), PStr current_task_name,
                                            task_type, task_details, task_dependency_info]]\<rparr>))))
             else Inr self)"

text \<open>\<^verbatim>\<open>current_task_name or parent_task_name\<close>.\<close>

definition or_parent :: "string option \<Rightarrow> string \<Rightarrow> string" where
  "or_parent current_task_name parent_task_name =
     (case current_task_name of
        None \<Rightarrow> parent_task_name
      | Some n \<Rightarrow> if n \<noteq> [] then n else parent_task_name)"

text \<open>
  \<^verbatim>\<open>recursive_parsing_Individual\<close>. The loop over a dict runs over its entries, with the dict
  itself at hand for the lookups of \<^verbatim>\<open>type\<close> and \<^verbatim>\<open>dependsOn\<close> and the local variable
  \<^verbatim>\<open>current_task_name\<close> carried along; the value of each key is the value of its entry. The
  loop over a list descends into the elements that are dicts.
\<close>

fun rpi_dict ::
  "pylib \<Rightarrow> (string \<times> pyval) list \<Rightarrow> (string \<times> pyval) list \<Rightarrow> string \<Rightarrow> string option
     \<Rightarrow> ADFPipelineDocGenerator \<Rightarrow> error + ADFPipelineDocGenerator"
  and rpi_list ::
  "pylib \<Rightarrow> pyval list \<Rightarrow> string \<Rightarrow> ADFPipelineDocGenerator \<Rightarrow> error + ADFPipelineDocGenerator" where
  "rpi_dict lib input_data [] parent_task_name current_task_name self = Inr self"
| "rpi_dict lib input_data ((data, PStr name) # rest) parent_task_name current_task_name self =
     (if data = ''name''
      then (if pipeline_name_flag self
            then rpi_dict lib input_data rest parent_task_name current_task_name
                   (self\<lparr>pipeline_name_flag := False, pipeline_name := name\<rparr>)
            else (case record_activity lib input_data name parent_task_name self of
                    Inl e \<Rightarrow> Inl e
                  | Inr self' \<Rightarrow>
                      rpi_dict lib input_data rest parent_task_name (Some name) self'))
      else rpi_dict lib input_data rest parent_task_name current_task_name self)"
| "rpi_dict lib input_data ((data, PDict d) # rest) parent_task_name current_task_name self =
     (case rpi_dict lib d d (or_parent current_task_name parent_task_name) None self of
        Inl e \<Rightarrow> Inl e
      | Inr self' \<Rightarrow> rpi_dict lib input_data rest parent_task_name current_task_name self')"
| "rpi_dict lib input_data ((data, PList xs) # rest) parent_task_name current_task_name self =
     (case rpi_list lib xs (or_parent current_task_name parent_task_name) self of
        Inl e \<Rightarrow> Inl e
      | Inr self' \<Rightarrow> rpi_dict lib input_data rest parent_task_name current_task_name self')"
| "rpi_dict lib input_data ((data, v) # rest) parent_task_name current_task_name self =
     rpi_dict lib input_data rest parent_task_name current_task_name self"
| "rpi_list lib [] parent_task_name self = Inr self"
| "rpi_list lib (PDict d # rest) parent_task_name self =
     (case rpi_dict lib d d parent_task_name None self of
        Inl e \<Rightarrow> Inl e
      | Inr self' \<Rightarrow> rpi_list lib rest parent_task_name self')"
| "rpi_list lib (v # rest) parent_task_name self = rpi_list lib rest parent_task_name self"

definition recursive_parsing_Individual ::
  "pylib \<Rightarrow> pyval \<Rightarrow> string \<Rightarrow> ADFPipelineDocGenerator \<Rightarrow> error + ADFPipelineDocGenerator" where
  "recursive_parsing_Individual lib input_data parent_task_name self =
     (case input_data of
        PDict d \<Rightarrow> rpi_dict lib d d parent_task_name None self
      | _ \<Rightarrow> (case py_iter input_data of
                 Inl e \<Rightarrow> Inl e
               | Inr items \<Rightarrow> rpi_list lib items parent_task_name self))"

text \<open>
  \<^verbatim>\<open>recursive_parsing\<close>, for the pipelines of a template. A name that holds the marker sets
  the pipeline name to \<^verbatim>\<open>name[37:end_idx]\<close>, where \<^verbatim>\<open>end_idx\<close> is the index of the last quote.
\<close>

definition v_type :: string where
  "v_type = ''[concat(parameters('' @ [CHR 0x27] @ ''factoryName'' @ [CHR 0x27] @ '')''"

definition rfind :: "string \<Rightarrow> char \<Rightarrow> int" where
  "rfind s c =
     (if c \<in> set s then int (length s) - 1 - int (length (takeWhile (\<lambda>x. x \<noteq> c) (rev s)))
      else - 1)"

definition py_slice :: "string \<Rightarrow> int \<Rightarrow> int \<Rightarrow> string" where
  "py_slice s a b =
     (let n = int (length s);
          a' = (if a < 0 then max (a + n) 0 else min a n);
          b' = (if b < 0 then max (b + n) 0 else min b n)
      in drop (nat a') (take (nat b') s))"

fun rp_dict ::
  "pylib \<Rightarrow> (string \<times> pyval) list \<Rightarrow> (string \<times> pyval) list \<Rightarrow> string \<Rightarrow> string option
     \<Rightarrow> ADFPipelineDocGenerator \<Rightarrow> error + ADFPipelineDocGenerator"
  and rp_list ::
  "pylib \<Rightarrow> pyval list \<Rightarrow> string \<Rightarrow> ADFPipelineDocGenerator \<Rightarrow> error + ADFPipelineDocGenerator" where
  "rp_dict lib input_data [] parent_task_name current_task_name self = Inr self"
| "rp_dict lib input_data ((data, PStr name) # rest) parent_task_name current_task_name self =
     (if data = ''name''
      then (if str_contains name v_type
            then (let end_idx = rfind name (CHR 0x27)
                  in rp_dict lib input_data rest parent_task_name current_task_name
                       (self\<lparr>pipeline_name := py_slice name 37 end_idx\<rparr>))
            else (case record_activity lib input_data name parent_task_name self of
                    Inl e \<Rightarrow> Inl e
                  | Inr self' \<Rightarrow>
                      rp_dict lib input_data rest parent_task_name (Some name) self'))
      else rp_dict lib input_data rest parent_task_name current_task_name self)"
| "rp_dict lib input_data ((data, PDict d) # rest) parent_task_name current_task_name self =
     (case rp_dict lib d d (or_parent current_task_name parent_task_name) None self of
        Inl e \<Rightarrow> Inl e
      | Inr self' \<Rightarrow> rp_dict lib input_data rest parent_task_name current_task_name self')"
| "rp_dict lib input_data ((data, PList xs) # rest) parent_task_name current_task_name self =
     (case rp_list lib xs (or_parent current_task_name parent_task_name) self of
        Inl e \<Rightarrow> Inl e
      | Inr self' \<Rightarrow> rp_dict lib input_data rest parent_task_name current_task_name self')"
| "rp_dict lib input_data ((data, v) # rest) parent_task_name current_task_name self =
     rp_dict lib input_data rest parent_task_name current_task_name self"
| "rp_list lib [] parent_task_name self = Inr self"
| "rp_list lib (PDict d # rest) parent_task_name self =
     (case rp_dict lib d d parent_task_name None self of
        Inl e \<Rightarrow> Inl e
      | Inr self' \<Rightarrow> rp_list lib rest parent_task_name self')"
| "rp_list lib (v # rest) parent_task_name self = rp_list lib rest parent_task_name self"

definition recursive_parsing ::
  "pylib \<Rightarrow> pyval \<Rightarrow> string \<Rightarrow> ADFPipelineDocGenerator \<Rightarrow> error + ADFPipelineDocGenerator" where
  "recursive_parsing lib input_data parent_task_name self =
     (case input_data of
        PDict d \<Rightarrow> rp_dict lib d d parent_task_name None self
      | _ \<Rightarrow> (case py_iter input_data of
                 Inl e \<Rightarrow> Inl e
               | Inr items \<Rightarrow> rp_list lib items parent_task_name self))"

text \<open>
  The script: a document with a list of \<^verbatim>\<open>resources\<close> is a template, whose pipelines are
  parsed one after the other by the same generator; any other document is one pipeline.
\<close>

fun parse_resources ::
  "pylib \<Rightarrow> pyval list \<Rightarrow> ADFPipelineDocGenerator \<Rightarrow> error + ADFPipelineDocGenerator" where
  "parse_resources lib [] doc_gen = Inr doc_gen"
| "parse_resources lib (data # resource_obj) doc_gen =
     (case py_get data ''type'' PNone of
        Inl e \<Rightarrow> Inl e
      | Inr t \<Rightarrow>
          if t = PStr ''Microsoft.DataFactory/factories/pipelines''
          then (case recursive_parsing lib data [] doc_gen of
                  Inl e \<Rightarrow> Inl e
                | Inr doc_gen' \<Rightarrow> parse_resources lib resource_obj doc_gen')
          else parse_resources lib resource_obj doc_gen)"

definition extract_document :: "pylib \<Rightarrow> pyval \<Rightarrow> error + ADFPipelineDocGenerator" where
  "extract_document lib json_data =
     (case py_get json_data ''resources'' (PStr []) of
        Inl e \<Rightarrow> Inl e
      | Inr resources \<Rightarrow>
          (case resources of
             PList resource_obj \<Rightarrow> parse_resources lib resource_obj ADFPipelineDocGenerator_init
           | _ \<Rightarrow> recursive_parsing_Individual lib json_data [] ADFPipelineDocGenerator_init))"

section \<open>The report written by the script\<close>

text \<open>The header row and the two instruction builders of the script.\<close>

definition headers :: "pyval list" where
  "headers = [PStr ''Pipeline Name'', PStr ''Task Name'', PStr ''Type'', PStr ''Details'',
              PStr ''Depency Task: Condition'']"

definition uniform_format :: style where
  "uniform_format = [(''font_styles'', PList [PStr ''bold'']),
                     (''text_color'', PStr ''black''),
                     (''bg_color'', PStr ''#99CCFF''),
                     (''cell_borders'', PList [PStr ''top''])]"

text \<open>
  Each entry of the column tier is a new dictionary object (\<^verbatim>\<open>uniform_format.copy()\<close>, \<^verbatim>\<open>{}\<close>);
  the entry of column \<open>i\<close> gets the identity \<open>i\<close>.
\<close>

definition get_initial_row_formatting :: "pyval list \<Rightarrow> instructions" where
  "get_initial_row_formatting initial_row =
     (let n = int (length initial_row);
          column = fold (\<lambda>i col. dict_set col (PStr (str_int i)) (nat i)) [0..n - 1] [];
          objs =
            fold (\<lambda>i objs.
                    dict_set objs (nat i)
                      (if i = n - 1
                       then dict_set uniform_format ''cell_borders''
                              (PList [PStr ''top'', PStr ''right''])
                       else uniform_format))
              [0..n - 1] []
      in \<lparr> row_tier = None, column_tier = Some column, cell_tier = None, objects = objs \<rparr>)"

definition get_rest_rows_formatting :: "int \<Rightarrow> pyval list \<Rightarrow> instructions" where
  "get_rest_rows_formatting start_position formatted_row =
     (let n = int (length formatted_row);
          column =
            fold (\<lambda>i col. dict_set col (PStr (str_int i)) (nat i)) [start_position..n - 1] [];
          objs =
            fold (\<lambda>i objs.
                    dict_set objs (nat i)
                      (let e1 = (if i \<noteq> 3
                                 then dict_set [] ''cell_str_format''
                                        (PStr ''[$$-409]#,##0_);[$$-409](#,##0)'')
                                 else [])
                       in if i = n - 1
                          then dict_set e1 ''cell_borders'' (PList [PStr ''right''])
                          else e1))
              [start_position..n - 1] []
      in \<lparr> row_tier = None, column_tier = Some column, cell_tier = None, objects = objs \<rparr>)"

text \<open>The loop of the script over the extracted table: one \<^verbatim>\<open>write_row\<close> for each row.\<close>

fun write_table :: "pylib \<Rightarrow> pyval list list \<Rightarrow> ExcelUtils \<Rightarrow> error + ExcelUtils" where
  "write_table lib [] xl_utility = Inr xl_utility"
| "write_table lib (row # rows) xl_utility =
     (let formatted_row = replicate (length headers) (PStr []);
          each_row_formatting = get_rest_rows_formatting 1 formatted_row
      in case write_row lib xl_utility row None (Some each_row_formatting) of
           Inl e \<Rightarrow> Inl e
         | Inr (off, xl_utility') \<Rightarrow> write_table lib rows xl_utility')"

text \<open>
  The end of the script, from \<^verbatim>\<open>xl_utility = ExcelUtils()\<close> on: the header row goes through
  \<^verbatim>\<open>create_new\<close> as the only row of values, then the table is written. The result is the
  writer as it stands when \<^verbatim>\<open>close_workbook\<close> is called, whose sheet is the output file.
\<close>

definition write_report :: "pylib \<Rightarrow> bool \<Rightarrow> string \<Rightarrow> pyval list list \<Rightarrow> error + ExcelUtils" where
  "write_report lib path_exists temp_path rows =
     (let initial_row_formatting = get_initial_row_formatting headers
      in case create_new lib path_exists ExcelUtils_init temp_path [PList headers] True
                ''Sheet1'' None (Some initial_row_formatting) of
           Inl e \<Rightarrow> Inl e
         | Inr (off, xl_utility) \<Rightarrow> write_table lib rows xl_utility)"

text \<open>The whole script, from the parsed document to the writer at the end.\<close>

definition script :: "pylib \<Rightarrow> bool \<Rightarrow> string \<Rightarrow> pyval \<Rightarrow> error + ExcelUtils" where
  "script lib path_exists temp_path json_data =
     (case extract_document lib json_data of
        Inl e \<Rightarrow> Inl e
      | Inr doc_gen \<Rightarrow> write_report lib path_exists temp_path (table_data doc_gen))"

text \<open>The cells of a sheet, without their formats: row, column and value of each write.\<close>

definition written_cells :: "ExcelUtils \<Rightarrow> (int \<times> int \<times> pyval) list" where
  "written_cells self =
     (case current_sheet self of
        None \<Rightarrow> []
      | Some sh \<Rightarrow> map (\<lambda>w. (fst w, fst (snd w), fst (snd (snd w)))) (writes sh))"

section \<open>Sequences of calls of \<^verbatim>\<open>write_row\<close> without an offset\<close>

fun write_rows :: "pylib \<Rightarrow> ExcelUtils \<Rightarrow> (pyval list \<times> instructions option) list \<Rightarrow> error + ExcelUtils" where
  "write_rows lib self [] = Inr self"
| "write_rows lib self ((vals, instr) # calls) =
     (case write_row lib self vals None instr of
        Inl e \<Rightarrow> Inl e
      | Inr (off, self') \<Rightarrow> write_rows lib self' calls)"

text \<open>
  The number of sheet rows a list of values stands for: its length when it is nested (its
  first element is a list or a tuple), one when it is a flat list of values, none when it
  is empty.
\<close>

definition row_count :: "pyval list \<Rightarrow> int" where
  "row_count vals =
     (case vals of
        [] \<Rightarrow> 0
      | v # vs \<Rightarrow> if is_list_or_tuple v then int (length vals) else 1)"

text \<open>The cells a row of items occupies at sheet row \<open>r\<close>, from column \<open>c\<close> on.\<close>

fun row_cells :: "pylib \<Rightarrow> int \<Rightarrow> int \<Rightarrow> pyval list \<Rightarrow> (int \<times> int \<times> pyval) list" where
  "row_cells lib r c [] = []"
| "row_cells lib r c (item # items) = (r, c, serialize lib item) # row_cells lib r (c + 1) items"

text \<open>The cells a list of values occupies when its first row is written at sheet row \<open>r\<close>.\<close>

fun nested_cells :: "pylib \<Rightarrow> int \<Rightarrow> pyval list \<Rightarrow> (int \<times> int \<times> pyval) list" where
  "nested_cells lib r [] = []"
| "nested_cells lib r (row # rows) =
     (case py_iter row of Inl e \<Rightarrow> [] | Inr items \<Rightarrow> row_cells lib r 0 items)
       @ nested_cells lib (r + 1) rows"

definition value_cells :: "pylib \<Rightarrow> int \<Rightarrow> pyval list \<Rightarrow> (int \<times> int \<times> pyval) list" where
  "value_cells lib r vals =
     (case vals of
        [] \<Rightarrow> []
      | v # vs \<Rightarrow> if is_list_or_tuple v then nested_cells lib r vals else row_cells lib r 0 vals)"

text \<open>A value a \<^verbatim>\<open>for\<close> loop can run over, and a writer with an open workbook and sheet.\<close>

definition iterable :: "pyval \<Rightarrow> bool" where
  "iterable v = (case py_iter v of Inl e \<Rightarrow> False | Inr xs \<Rightarrow> True)"

definition is_open :: "ExcelUtils \<Rightarrow> bool" where
  "is_open self = (workbook self \<noteq> None \<and> current_sheet self \<noteq> None)"

section \<open>Notions for the properties of the reader\<close>

text \<open>A row passes a list of filters when each cell that has a filter at its index equals it.\<close>

definition row_passes :: "pyval list \<Rightarrow> pyval list \<Rightarrow> bool" where
  "row_passes filters row = list_all (\<lambda>vf. py_eq (fst vf) (snd vf)) (zip row filters)"

text \<open>The cells that hold a text or nothing.\<close>

fun text_cell :: "pyval \<Rightarrow> bool" where
  "text_cell PNone = True"
| "text_cell (PStr s) = True"
| "text_cell v = False"

section \<open>Notions for the properties of the extractor\<close>

text \<open>
  The first string under a key \<^verbatim>\<open>name\<close> that the traversal of a dict (of a list) meets: the
  entries in order, descending into each dict and list on the way, and in a list into the
  elements that are dicts.
\<close>

fun first_name_dict :: "(string \<times> pyval) list \<Rightarrow> string option"
  and first_name_list :: "pyval list \<Rightarrow> string option" where
  "first_name_dict [] = None"
| "first_name_dict ((k, PStr n) # rest) = (if k = ''name'' then Some n else first_name_dict rest)"
| "first_name_dict ((k, PDict d) # rest) =
     (case first_name_dict d of Some n \<Rightarrow> Some n | None \<Rightarrow> first_name_dict rest)"
| "first_name_dict ((k, PList xs) # rest) =
     (case first_name_list xs of Some n \<Rightarrow> Some n | None \<Rightarrow> first_name_dict rest)"
| "first_name_dict ((k, v) # rest) = first_name_dict rest"
| "first_name_list [] = None"
| "first_name_list (PDict d # rest) =
     (case first_name_dict d of Some n \<Rightarrow> Some n | None \<Rightarrow> first_name_list rest)"
| "first_name_list (v # rest) = first_name_list rest"

text \<open>The first column of a row of the table.\<close>

definition row_pipeline :: "pyval list \<Rightarrow> pyval option" where
  "row_pipeline row = (case row of [] \<Rightarrow> None | p # rest \<Rightarrow> Some p)"

text \<open>
  \<open>self'\<close> continues \<open>self\<close>: the table has grown by rows that carry the pipeline name of
  \<open>self'\<close>, by none if the flag of \<open>self'\<close> is still up; and once the flag is down, the flag
  and the pipeline name stay as they are.
\<close>

definition continues :: "ADFPipelineDocGenerator \<Rightarrow> ADFPipelineDocGenerator \<Rightarrow> bool" where
  "continues self self' \<longleftrightarrow>
     (\<exists>ext. table_data self' = table_data self @ ext
        \<and> list_all (\<lambda>row. row_pipeline row = Some (PStr (pipeline_name self'))) ext
        \<and> (pipeline_name_flag self' \<longrightarrow> ext = []))
     \<and> (\<not> pipeline_name_flag self \<longrightarrow>
          \<not> pipeline_name_flag self' \<and> pipeline_name self' = pipeline_name self)"

text \<open>
  What the first name does to a generator whose flag is up: it becomes the pipeline name and
  takes the flag down; with no name, both stay.
\<close>

definition captured ::
  "string option \<Rightarrow> ADFPipelineDocGenerator \<Rightarrow> ADFPipelineDocGenerator \<Rightarrow> bool" where
  "captured first self self' =
     (case first of
        Some n \<Rightarrow> pipeline_name self' = n \<and> \<not> pipeline_name_flag self'
      | None \<Rightarrow> pipeline_name self' = pipeline_name self \<and> pipeline_name_flag self')"

text \<open>
  The name a call of \<^verbatim>\<open>recursive_parsing_Individual\<close> has read when it has gone through the
  entries \<open>before\<close> of the object it visits: the last string under the key \<^verbatim>\<open>name\<close>. The call
  has read a name when there is one and it is not empty.
\<close>

fun last_name :: "(string \<times> pyval) list \<Rightarrow> string option" where
  "last_name [] = None"
| "last_name ((k, v) # rest) =
     (case last_name rest of
        Some n \<Rightarrow> Some n
      | None \<Rightarrow> (case v of PStr n \<Rightarrow> if k = ''name'' then Some n else None | _ \<Rightarrow> None))"

definition reads_name :: "(string \<times> pyval) list \<Rightarrow> bool" where
  "reads_name before = (case last_name before of Some n \<Rightarrow> n \<noteq> [] | None \<Rightarrow> False)"

text \<open>
  An object lies under a value when the value is the object or a list that holds it.
  \<open>descends d bs c\<close>: the object \<open>c\<close> lies in the object \<open>d\<close>, and \<open>bs\<close> lists, from \<open>d\<close>
  inwards, for each object that encloses \<open>c\<close> the entries that come before the entry under
  which \<open>c\<close> lies.
\<close>

fun holds_object :: "pyval \<Rightarrow> (string \<times> pyval) list \<Rightarrow> bool" where
  "holds_object (PDict d) e = (d = e)"
| "holds_object (PList xs) e = (PDict e \<in> set xs)"
| "holds_object v e = False"

inductive descends ::
  "(string \<times> pyval) list \<Rightarrow> (string \<times> pyval) list list \<Rightarrow> (string \<times> pyval) list \<Rightarrow> bool" where
  here: "descends d [] d"
| step: "holds_object v e \<Longrightarrow> descends e bs c \<Longrightarrow> descends (before @ (k, v) # after) (before # bs) c"

text \<open>
  The name of the nearest enclosing named ancestor: the name read by the innermost of the
  enclosing objects that has read one before the entry under which the node lies, and the
  name \<open>p\<close> given to the traversal when no enclosing object has.
\<close>

definition inherited :: "string \<Rightarrow> (string \<times> pyval) list list \<Rightarrow> string" where
  "inherited p bs =
     (case find reads_name (rev bs) of
        None \<Rightarrow> p
      | Some before \<Rightarrow> (case last_name before of Some n \<Rightarrow> n | None \<Rightarrow> p))"

section \<open>Kinds of instruction keys\<close>

text \<open>
  The keys a caller may use in the three tiers: integers (as in the docstring of
  \<^verbatim>\<open>_convert_instructions_to_formats\<close>) or strings (as \<^verbatim>\<open>get_initial_row_formatting\<close> builds
  them); for a cell, a tuple of integers or a pair of strings.
\<close>

fun is_int_key :: "pyval \<Rightarrow> bool" where
  "is_int_key (PInt i) = True"
| "is_int_key v = False"

fun is_int_tuple_key :: "pyval \<Rightarrow> bool" where
  "is_int_tuple_key (PTuple xs) = list_all is_int_key xs"
| "is_int_tuple_key v = False"

fun is_str_key :: "pyval \<Rightarrow> bool" where
  "is_str_key (PStr s) = True"
| "is_str_key v = False"

fun is_str_pair_key :: "pyval \<Rightarrow> bool" where
  "is_str_pair_key (PTuple [PStr a, PStr b]) = True"
| "is_str_pair_key v = False"

definition tier_keys :: "(pyval \<Rightarrow> bool) \<Rightarrow> (pyval \<times> obj_id) list option \<Rightarrow> bool" where
  "tier_keys P tier = (case tier of None \<Rightarrow> True | Some m \<Rightarrow> list_all (\<lambda>kv. P (fst kv)) m)"

definition int_keyed :: "instructions \<Rightarrow> bool" where
  "int_keyed ins \<longleftrightarrow>
     tier_keys is_int_key (row_tier ins) \<and> tier_keys is_int_key (column_tier ins) \<and>
     tier_keys is_int_tuple_key (cell_tier ins)"

definition keep_keys ::
  "(pyval \<Rightarrow> bool) \<Rightarrow> (pyval \<times> obj_id) list option \<Rightarrow> (pyval \<times> obj_id) list option" where
  "keep_keys P tier = map_option (filter (\<lambda>kv. P (fst kv))) tier"

definition string_keyed_part :: "instructions \<Rightarrow> instructions" where
  "string_keyed_part ins =
     \<lparr> row_tier = keep_keys is_str_key (row_tier ins),
       column_tier = keep_keys is_str_key (column_tier ins),
       cell_tier = keep_keys is_str_pair_key (cell_tier ins),
       objects = objects ins \<rparr>"

definition Formatter_default :: Formatter where
  "Formatter_default = \<lparr> cell_str_format = PNone, font_styles = PNone, cell_borders = PNone,
                          text_color = PNone, bg_color = PNone \<rparr>"

section \<open>A library instance for examples\<close>

text \<open>
  An instance of the library functions for evaluating the model on examples: no text parses
  as a date under any format (as \<^verbatim>\<open>datetime.strptime\<close> does for the text \<^verbatim>\<open>hello\<close> under every
  format of \<^verbatim>\<open>is_datetime\<close>), and every conversion to text gives the empty text.
\<close>

definition sample_lib :: pylib where
  "sample_lib = \<lparr> strftime_mdY = (\<lambda>d. []), float_of_decimal = (\<lambda>r. r),
                   strptime = (\<lambda>s f. None),
                   str_of = (\<lambda>v. []) \<rparr>"

definition open_writer :: ExcelUtils where
  "open_writer = \<lparr> workbook = Some ''out.xlsx'',
                    current_sheet = Some \<lparr> sheet_name = ''Sheet1'', writes = [] \<rparr>,
                    path_or_bytes_stream = None, cur_offset = 0, self_path = None \<rparr>"

section \<open>Example documents\<close>

text \<open>A pipeline with one Lookup activity.\<close>

definition lookup_doc :: pyval where
  "lookup_doc =
     PDict [(''name'', PStr ''PL1''),
            (''activities'', PList [PDict
               [(''name'', PStr ''A1''), (''type'', PStr ''Lookup''),
                (''typeProperties'', PDict [(''source'', PDict
                   [(''sqlReaderStoredProcedureName'', PStr ''sp_x''),
                    (''storedProcedureParameters'',
                       PDict [(''p1'', PDict [(''value'', PStr ''5'')])])])])]])]"

text \<open>A pipeline with one ExecutePipeline activity, and the activity.\<close>

definition execute_activity :: "(string \<times> pyval) list" where
  "execute_activity =
     [(''name'', PStr ''E1''), (''type'', PStr ''ExecutePipeline''),
      (''typeProperties'', PDict [(''pipeline'', PDict [(''referenceName'', PStr ''Child'')])])]"

definition execute_doc :: pyval where
  "execute_doc = PDict [(''name'', PStr ''PL1''), (''activities'', PList [PDict execute_activity])]"

text \<open>
  A template with two pipelines, named \<^verbatim>\<open>[concat(parameters('factoryName'), '/PL1')]\<close> and
  \<^verbatim>\<open>[concat(parameters('factoryName'), '/PL2')]\<close>, each with one Wait activity.
\<close>

definition template_pipeline :: "string \<Rightarrow> string \<Rightarrow> pyval" where
  "template_pipeline pl act =
     PDict [(''name'', PStr (v_type @ '', '' @ [CHR 0x27] @ ''/'' @ pl @ [CHR 0x27] @ '')]'')),
            (''type'', PStr ''Microsoft.DataFactory/factories/pipelines''),
            (''properties'', PDict [(''activities'', PList [PDict
               [(''name'', PStr act), (''type'', PStr ''Wait''),
                (''typeProperties'', PDict [(''waitTimeInSeconds'', PInt 5)])]])])]"

definition template_doc :: pyval where
  "template_doc =
     PDict [(''resources'', PList [template_pipeline ''PL1'' ''A1'', template_pipeline ''PL2'' ''A2''])]"

text \<open>
  An IfCondition activity \<^verbatim>\<open>A\<close> that holds a Wait activity \<^verbatim>\<open>B\<close>: once with the name of
  \<^verbatim>\<open>A\<close> after its \<^verbatim>\<open>typeProperties\<close>, once with the name first.
\<close>

definition inner_activity :: "(string \<times> pyval) list" where
  "inner_activity = [(''name'', PStr ''B''), (''type'', PStr ''Wait'')]"


definition name_first_doc :: pyval where
  "name_first_doc =
     PDict [(''name'', PStr ''PL''),
            (''activities'', PList [PDict
               [(''name'', PStr ''A''), (''type'', PStr ''IfCondition''),
                (''typeProperties'', PDict [(''ifTrueActivities'', PList [PDict inner_activity])])]])]"



section \<open>Verified properties\<close>

subsection \<open>The resolution of formatting instructions\<close>

lemma map_of_dict_set:
  "map_of (dict_set d k v) = (map_of d)(k \<mapsto> v)"
  by (induction d k v rule: dict_set.induct) auto

lemma fst_set_dict_set:
  "fst ` set (dict_set d k v) = insert k (fst ` set d)"
  by (induction d k v rule: dict_set.induct) auto


lemma map_of_overlay:
  "distinct (map fst items) \<Longrightarrow>
   map_of (overlay d items) k = (case map_of items k of Some v \<Rightarrow> Some v | None \<Rightarrow> map_of d k)"
proof (induction d items rule: overlay.induct)
  case (1 d)
  show ?case by simp
next
  case (2 d k' v items)
  have "map_of items k' = None"
    using "2.prems" by (simp add: map_of_eq_None_iff)
  then show ?case
    using 2 by (simp add: map_of_dict_set split: option.splits)
qed

lemma fst_set_overlay:
  "fst ` set (overlay d items) = fst ` set d \<union> fst ` set items"
  by (induction d items rule: overlay.induct) (auto simp: fst_set_dict_set)

lemma Formatter_init_ok:
  assumes keys: "fst ` set kw \<subseteq> set formatter_fields" and k: "k \<in> set formatter_fields"
  shows "\<exists>F. Formatter_init kw = Inr F \<and> formatter_attr F k = Some (kwarg kw k)"
proof -
  let ?F = "\<lparr> cell_str_format = kwarg kw ''cell_str_format'',
                font_styles = kwarg kw ''font_styles'',
                cell_borders = kwarg kw ''cell_borders'',
                text_color = kwarg kw ''text_color'',
                bg_color = kwarg kw ''bg_color'' \<rparr>"
  have "list_all (\<lambda>k. k \<in> set formatter_fields) (map fst kw)"
    using keys by (simp add: list_all_iff image_subset_iff)
  then have init: "Formatter_init kw = Inr ?F"
    by (simp only: Formatter_init_def if_True)
  have "k = ''cell_str_format'' \<or> k = ''font_styles'' \<or> k = ''cell_borders''
    \<or> k = ''text_color'' \<or> k = ''bg_color''"
    using k by (simp add: formatter_fields_def)
  then have "formatter_attr ?F k = Some (kwarg kw k)"
    by (elim disjE) (simp_all add: formatter_attr_def)
  with init show ?thesis by simp
qed

lemma obj_at_dict_set:
  "obj_at (dict_set objs a d) b = (if b = a then d else obj_at objs b)"
  by (simp add: obj_at_def map_of_dict_set)

lemma obj_at_update_items_other:
  "b \<noteq> t \<Longrightarrow> obj_at (update_items objs t s) b = obj_at objs b"
  by (simp add: update_items_def obj_at_dict_set)

lemma obj_at_update_items_same:
  "obj_at (update_items objs t s) t =
     (if s = t then obj_at objs t else overlay (obj_at objs t) (obj_at objs s))"
  by (simp add: update_items_def obj_at_dict_set)

lemma tier_entry_Some:
  "tier = Some m \<Longrightarrow> map_of m k = Some a \<Longrightarrow> obj_at objs a \<noteq> [] \<Longrightarrow>
   tier_entry objs tier k = Some a"
  by (simp add: tier_entry_def)

text \<open>
  Claim C1, as stated, fails on two structures in which the row tier, the column tier and the
  cell tier all define \<^verbatim>\<open>text_color\<close> for row 2 and column 1. In the first the tiers are keyed
  by the integers 2, 1 and the tuple \<^verbatim>\<open>(2, 1)\<close>, as in the docstring of
  \<^verbatim>\<open>_convert_instructions_to_formats\<close>: the function looks the tiers up under the strings, finds
  nothing, and returns the default Formatter, whose \<^verbatim>\<open>text_color\<close> is \<^verbatim>\<open>None\<close> and not the cell
  tier's \<^verbatim>\<open>'blue'\<close>. In the second the tiers are keyed by strings, and the row tier's entry and
  the cell tier's entry are one dictionary object (defining \<^verbatim>\<open>'blue'\<close>): the column tier's
  \<^verbatim>\<open>'red'\<close> is written into that object, the cell tier's entry then is that same object, and
  the Formatter has the column tier's \<^verbatim>\<open>'red'\<close>.
\<close>

theorem cell_precedence_counterexample:
  "convert_instructions_to_formats
     (Some \<lparr> row_tier = Some [(PInt 2, 0)],
             column_tier = Some [(PInt 1, 1)],
             cell_tier = Some [(PTuple [PInt 2, PInt 1], 2)],
             objects = [(0, [(''text_color'', PStr ''black'')]),
                        (1, [(''text_color'', PStr ''red'')]),
                        (2, [(''text_color'', PStr ''blue'')])] \<rparr>) 2 1
     = Inr Formatter_default
   \<and> formatter_attr Formatter_default ''text_color'' = Some PNone
   \<and> convert_instructions_to_formats
        (Some \<lparr> row_tier = Some [(PStr ''2'', 0)],
                column_tier = Some [(PStr ''1'', 1)],
                cell_tier = Some [(PTuple [PStr ''2'', PStr ''1''], 0)],
                objects = [(0, [(''text_color'', PStr ''blue'')]),
                           (1, [(''text_color'', PStr ''red'')])] \<rparr>) 2 1
     = Inr (Formatter_default\<lparr> text_color := PStr ''red'' \<rparr>)"
  by code_simp

text \<open>
  Claim C1, as amended. Let the instructions hold an entry for row \<open>R\<close> in the row tier, an
  entry for column \<open>C\<close> in the column tier and an entry for the cell \<open>(R, C)\<close> in the cell tier,
  each under the key the function looks up (the index as a string, the pair of both strings),
  each a keyword dictionary of Formatter attributes, and all three defining the field \<open>f\<close>;
  and let the row tier's entry and the cell tier's entry be two objects. Then
  \<^verbatim>\<open>_convert_instructions_to_formats\<close> returns a Formatter, and its attribute \<open>f\<close> has the value
  of the cell tier's entry.
\<close>

theorem resolve_cell_precedence:
  assumes row: "row_tier ins = Some rt" "map_of rt (PStr (str_int R)) = Some re"
      "map_of (obj_at (objects ins) re) f = Some vr"
    and col: "column_tier ins = Some ct" "map_of ct (PStr (str_int C)) = Some co"
      "map_of (obj_at (objects ins) co) f = Some vc"
    and cell: "cell_tier ins = Some xt"
      "map_of xt (PTuple [PStr (str_int R), PStr (str_int C)]) = Some ce"
      "map_of (obj_at (objects ins) ce) f = Some v"
    and separate: "re \<noteq> ce"
    and wf: "fst ` set (obj_at (objects ins) re) \<subseteq> set formatter_fields"
      "fst ` set (obj_at (objects ins) co) \<subseteq> set formatter_fields"
      "fst ` set (obj_at (objects ins) ce) \<subseteq> set formatter_fields"
      "distinct (map fst (obj_at (objects ins) ce))"
  shows "\<exists>F. convert_instructions_to_formats (Some ins) R C = Inr F \<and> formatter_attr F f = Some v"
proof -
  let ?objs = "objects ins"
  have ne: "obj_at ?objs re \<noteq> []" "obj_at ?objs co \<noteq> []" "obj_at ?objs ce \<noteq> []"
    using row(3) col(3) cell(3) by auto
  have e1: "tier_entry ?objs (row_tier ins) (PStr (str_int R)) = Some re"
    using row ne by (simp add: tier_entry_Some)
  have e2: "tier_entry ?objs (column_tier ins) (PStr (str_int C)) = Some co"
    using col ne by (simp add: tier_entry_Some)
  have e3: "tier_entry ?objs (cell_tier ins) (PTuple [PStr (str_int R), PStr (str_int C)]) = Some ce"
    using cell ne by (simp add: tier_entry_Some)
  let ?base = "obj_at (update_items ?objs re co) re"
  let ?t = "overlay ?base (obj_at ?objs ce)"
  have conv: "convert_instructions_to_formats (Some ins) R C = Formatter_init ?t"
    using separate
    by (simp add: convert_instructions_to_formats_def Let_def e1 e2 e3
        obj_at_update_items_same obj_at_update_items_other)
  have base: "fst ` set ?base \<subseteq> set formatter_fields"
    using wf(1,2) by (simp add: obj_at_update_items_same fst_set_overlay)
  have keys: "fst ` set ?t \<subseteq> set formatter_fields"
    using base wf(3) by (simp add: fst_set_overlay)
  have f_in: "f \<in> set formatter_fields"
  proof -
    have "(f, v) \<in> set (obj_at ?objs ce)" using cell(3) by (rule map_of_SomeD)
    then have "f \<in> fst ` set (obj_at ?objs ce)" by (rule image_eqI [rotated]) simp
    then show ?thesis using wf(3) by (rule set_mp [rotated])
  qed
  have val: "kwarg ?t f = v"
    using cell(3) wf(4) by (simp add: kwarg_def map_of_overlay)
  from Formatter_init_ok [OF keys f_in] val conv show ?thesis by simp
qed

theorem resolve_cell_precedence_witness:
  "\<exists>F. convert_instructions_to_formats
         (Some \<lparr> row_tier = Some [(PStr ''2'', 0)],
                 column_tier = Some [(PStr ''1'', 1)],
                 cell_tier = Some [(PTuple [PStr ''2'', PStr ''1''], 2)],
                 objects = [(0, [(''text_color'', PStr ''black'')]),
                            (1, [(''text_color'', PStr ''red'')]),
                            (2, [(''text_color'', PStr ''blue'')])] \<rparr>) 2 1 = Inr F
       \<and> formatter_attr F ''text_color'' = Some (PStr ''blue'')"
  using resolve_cell_precedence
    [where ins = "\<lparr> row_tier = Some [(PStr ''2'', 0)],
                 column_tier = Some [(PStr ''1'', 1)],
                 cell_tier = Some [(PTuple [PStr ''2'', PStr ''1''], 2)],
                 objects = [(0, [(''text_color'', PStr ''black'')]),
                            (1, [(''text_color'', PStr ''red'')]),
                            (2, [(''text_color'', PStr ''blue'')])] \<rparr>"
       and R = 2 and C = 1 and f = "''text_color''"
       and rt = "[(PStr ''2'', 0)]" and re = 0 and vr = "PStr ''black''"
       and ct = "[(PStr ''1'', 1)]" and co = 1 and vc = "PStr ''red''"
       and xt = "[(PTuple [PStr ''2'', PStr ''1''], 2)]" and ce = 2 and v = "PStr ''blue''"]
  by (simp add: str_int_def str_nat.simps formatter_fields_def obj_at_def)

lemma resolve_column_over_row:
  assumes row: "row_tier ins = Some rt" "map_of rt (PStr (str_int R)) = Some re"
      "map_of (obj_at (objects ins) re) f = Some vr"
    and col: "column_tier ins = Some ct" "map_of ct (PStr (str_int C)) = Some co"
      "map_of (obj_at (objects ins) co) f = Some vc"
    and cell: "tier_entry (objects ins) (cell_tier ins) (PTuple [PStr (str_int R), PStr (str_int C)])
               = None"
    and wf: "fst ` set (obj_at (objects ins) re) \<subseteq> set formatter_fields"
      "fst ` set (obj_at (objects ins) co) \<subseteq> set formatter_fields"
      "distinct (map fst (obj_at (objects ins) co))"
  shows "\<exists>F. convert_instructions_to_formats (Some ins) R C = Inr F \<and> formatter_attr F f = Some vc"
proof -
  let ?objs = "objects ins"
  have ne: "obj_at ?objs re \<noteq> []" "obj_at ?objs co \<noteq> []"
    using row(3) col(3) by auto
  have e1: "tier_entry ?objs (row_tier ins) (PStr (str_int R)) = Some re"
    using row ne by (simp add: tier_entry_Some)
  have e2: "tier_entry ?objs (column_tier ins) (PStr (str_int C)) = Some co"
    using col ne by (simp add: tier_entry_Some)
  let ?t = "obj_at (update_items ?objs re co) re"
  have conv: "convert_instructions_to_formats (Some ins) R C = Formatter_init ?t"
    by (simp add: convert_instructions_to_formats_def Let_def e1 e2 cell)
  have keys: "fst ` set ?t \<subseteq> set formatter_fields"
    using wf(1,2) by (simp add: obj_at_update_items_same fst_set_overlay)
  have f_in: "f \<in> set formatter_fields"
  proof -
    have "(f, vc) \<in> set (obj_at ?objs co)" using col(3) by (rule map_of_SomeD)
    then have "f \<in> fst ` set (obj_at ?objs co)" by (rule image_eqI [rotated]) simp
    then show ?thesis using wf(2) by (rule set_mp [rotated])
  qed
  have val: "kwarg ?t f = vc"
  proof (cases "co = re")
    case True
    with col(3) show ?thesis by (simp add: kwarg_def obj_at_update_items_same)
  next
    case False
    with col(3) wf(3) show ?thesis
      by (simp add: kwarg_def obj_at_update_items_same map_of_overlay)
  qed
  from Formatter_init_ok [OF keys f_in] val conv show ?thesis by simp
qed

lemma map_of_int_keys:
  "list_all (\<lambda>kv. is_int_key (fst kv)) m \<Longrightarrow> map_of m (PStr s) = None"
  by (induction m) auto

lemma map_of_int_tuple_keys:
  "list_all (\<lambda>kv. is_int_tuple_key (fst kv)) m \<Longrightarrow> map_of m (PTuple [PStr a, PStr b]) = None"
  by (induction m) auto

lemma tier_entry_int_keys:
  "tier_keys is_int_key tier \<Longrightarrow> tier_entry objs tier (PStr s) = None"
  by (cases tier) (simp_all add: tier_keys_def tier_entry_def map_of_int_keys)

lemma tier_entry_int_tuple_keys:
  "tier_keys is_int_tuple_key tier \<Longrightarrow> tier_entry objs tier (PTuple [PStr a, PStr b]) = None"
  by (cases tier) (simp_all add: tier_keys_def tier_entry_def map_of_int_tuple_keys)

lemma map_of_filter_key:
  "P k \<Longrightarrow> map_of (filter (\<lambda>kv. P (fst kv)) m) k = map_of m k"
  by (induction m) auto

lemma tier_entry_keep_keys:
  "P k \<Longrightarrow> tier_entry objs (keep_keys P tier) k = tier_entry objs tier k"
  by (cases tier) (simp_all add: keep_keys_def tier_entry_def map_of_filter_key)

lemma Formatter_init_Nil: "Formatter_init [] = Inr Formatter_default"
  by (simp add: Formatter_init_def Formatter_default_def kwarg_def)

text \<open>
  Claim C10. \<^verbatim>\<open>_convert_instructions_to_formats\<close> looks the tiers up under \<^verbatim>\<open>str(row_idx)\<close>,
  \<^verbatim>\<open>str(col_idx)\<close> and the pair of both. When the tiers are keyed by integers (and the cell tier
  by tuples of integers), no tier has an entry at any row and column and the result is the
  default Formatter; and for all instructions the result is the one of the instructions
  restricted to their string keys and string-pair cell keys.
\<close>

theorem only_string_keys_match:
  "(int_keyed ins \<longrightarrow>
      tier_entry (objects ins) (row_tier ins) (PStr (str_int r)) = None \<and>
      tier_entry (objects ins) (column_tier ins) (PStr (str_int c)) = None \<and>
      tier_entry (objects ins) (cell_tier ins) (PTuple [PStr (str_int r), PStr (str_int c)]) = None \<and>
      convert_instructions_to_formats (Some ins) r c = Inr Formatter_default) \<and>
   convert_instructions_to_formats (Some ins) r c =
     convert_instructions_to_formats (Some (string_keyed_part ins)) r c"
proof (intro conjI impI)
  assume k: "int_keyed ins"
  show r0: "tier_entry (objects ins) (row_tier ins) (PStr (str_int r)) = None"
    using k by (simp add: int_keyed_def tier_entry_int_keys)
  show c0: "tier_entry (objects ins) (column_tier ins) (PStr (str_int c)) = None"
    using k by (simp add: int_keyed_def tier_entry_int_keys)
  show x0: "tier_entry (objects ins) (cell_tier ins) (PTuple [PStr (str_int r), PStr (str_int c)])
            = None"
    using k by (simp add: int_keyed_def tier_entry_int_tuple_keys)
  show "convert_instructions_to_formats (Some ins) r c = Inr Formatter_default"
    by (simp add: convert_instructions_to_formats_def Let_def r0 c0 x0 Formatter_init_Nil)
next
  have o: "objects (string_keyed_part ins) = objects ins"
    by (simp add: string_keyed_part_def)
  have a: "tier_entry (objects ins) (row_tier (string_keyed_part ins)) (PStr (str_int r)) =
           tier_entry (objects ins) (row_tier ins) (PStr (str_int r))"
    by (simp add: string_keyed_part_def tier_entry_keep_keys)
  have b: "tier_entry (objects ins) (column_tier (string_keyed_part ins)) (PStr (str_int c)) =
           tier_entry (objects ins) (column_tier ins) (PStr (str_int c))"
    by (simp add: string_keyed_part_def tier_entry_keep_keys)
  have d: "tier_entry (objects ins) (cell_tier (string_keyed_part ins))
             (PTuple [PStr (str_int r), PStr (str_int c)]) =
           tier_entry (objects ins) (cell_tier ins) (PTuple [PStr (str_int r), PStr (str_int c)])"
    by (simp add: string_keyed_part_def tier_entry_keep_keys)
  show "convert_instructions_to_formats (Some ins) r c =
     convert_instructions_to_formats (Some (string_keyed_part ins)) r c"
    unfolding convert_instructions_to_formats_def Let_def option.case o a b d
    by (rule refl)
qed

theorem only_string_keys_match_witness:
  "int_keyed \<lparr> row_tier = Some [(PInt 0, 0)],
               column_tier = Some [(PInt 2, 1)],
               cell_tier = Some [(PTuple [PInt 0, PInt 0], 2)],
               objects = [(0, [(''text_color'', PStr ''black''),
                               (''cell_borders'', PList [PStr ''left'', PStr ''top''])]),
                          (1, [(''font'', PStr ''italics'')]),
                          (2, [(''font'', PStr ''bold''), (''bg_color'', PStr ''sky-blue''),
                               (''cell_str_format'', PStr ''$##0'')])] \<rparr>
   \<and> convert_instructions_to_formats
        (Some \<lparr> row_tier = Some [(PInt 0, 0)],
               column_tier = Some [(PInt 2, 1)],
               cell_tier = Some [(PTuple [PInt 0, PInt 0], 2)],
               objects = [(0, [(''text_color'', PStr ''black''),
                               (''cell_borders'', PList [PStr ''left'', PStr ''top''])]),
                          (1, [(''font'', PStr ''italics'')]),
                          (2, [(''font'', PStr ''bold''), (''bg_color'', PStr ''sky-blue''),
                               (''cell_str_format'', PStr ''$##0'')])] \<rparr>) 0 0
      = Inr Formatter_default"
  using only_string_keys_match
    [where ins = "\<lparr> row_tier = Some [(PInt 0, 0)],
               column_tier = Some [(PInt 2, 1)],
               cell_tier = Some [(PTuple [PInt 0, PInt 0], 2)],
               objects = [(0, [(''text_color'', PStr ''black''),
                               (''cell_borders'', PList [PStr ''left'', PStr ''top''])]),
                          (1, [(''font'', PStr ''italics'')]),
                          (2, [(''font'', PStr ''bold''), (''bg_color'', PStr ''sky-blue''),
                               (''cell_str_format'', PStr ''$##0'')])] \<rparr>"
       and r = 0 and c = 0]
  by (simp add: int_keyed_def tier_keys_def)

subsection \<open>The cursor of the writer\<close>

lemma write_cell_Inr:
  assumes "write_cell self r c v f = Inr self'"
  shows "cur_offset self' = cur_offset self \<and> workbook self' = workbook self
         \<and> written_cells self' = written_cells self @ [(r, c, v)]"
  using assms
  by (auto simp: write_cell_def written_cells_def split: option.splits sum.splits)

lemma write_items_Inr:
  "write_items lib instr fr r c items self = Inr self' \<Longrightarrow>
   cur_offset self' = cur_offset self \<and> workbook self' = workbook self
   \<and> written_cells self' = written_cells self @ row_cells lib r c items"
proof (induction items arbitrary: c self)
  case Nil
  then show ?case by simp
next
  case (Cons item items)
  from Cons.prems obtain formatter self1 where
    w: "write_cell self r c (serialize lib item) formatter = Inr self1" and
    rest: "write_items lib instr fr r (c + 1) items self1 = Inr self'"
    by (auto split: sum.splits)
  from write_cell_Inr [OF w] Cons.IH [OF rest] show ?case by simp
qed

lemma write_nested_Inr:
  "write_nested lib instr off i rows n self = Inr (n', self') \<Longrightarrow>
   n' = n + int (length rows) \<and> cur_offset self' = cur_offset self
   \<and> written_cells self' = written_cells self @ nested_cells lib (i + off) rows"
proof (induction rows arbitrary: i n self)
  case Nil
  then show ?case by simp
next
  case (Cons row rows)
  from Cons.prems obtain items self1 where
    it: "py_iter row = Inr items" and
    w: "write_items lib instr i (i + off) 0 items self = Inr self1" and
    rest: "write_nested lib instr off (i + 1) rows (n + 1) self1 = Inr (n', self')"
    by (auto split: sum.splits)
  from write_items_Inr [OF w] Cons.IH [OF rest] it show ?case
    by (simp add: add.commute add.left_commute)
qed

lemma write_row_Inr:
  assumes "write_row lib self vals None instr = Inr (off, self')"
  shows "off = cur_offset self + row_count vals \<and> cur_offset self' = off
         \<and> written_cells self' = written_cells self @ value_cells lib (cur_offset self) vals"
proof (cases vals)
  case Nil
  with assms show ?thesis
    by (auto simp: write_row_def row_count_def value_cells_def written_cells_def)
next
  case (Cons v vs)
  show ?thesis
  proof (cases "is_list_or_tuple v")
    case True
    then have nested: "(case vals of [] \<Rightarrow> None | v # vs \<Rightarrow> Some (is_list_or_tuple v)) = Some True"
      using Cons by simp
    have "(case write_nested lib instr (cur_offset self) 0 vals (cur_offset self) self of
             Inl e \<Rightarrow> Inl e
           | Inr (n, s) \<Rightarrow> Inr (n, s\<lparr>cur_offset := n\<rparr>)) = Inr (off, self')"
      using assms unfolding write_row_def Let_def nested by simp
    then obtain self1 where
      n: "write_nested lib instr (cur_offset self) 0 vals (cur_offset self) self = Inr (off, self1)"
      and s: "self' = self1\<lparr>cur_offset := off\<rparr>"
      by (auto split: sum.splits)
    have rc: "row_count vals = int (length vals)"
      using True Cons by (simp add: row_count_def)
    have vc: "value_cells lib (cur_offset self) vals = nested_cells lib (cur_offset self) vals"
      using True Cons by (simp add: value_cells_def)
    from write_nested_Inr [OF n] s show ?thesis
      unfolding rc vc by (simp add: written_cells_def)
  next
    case False
    then have nested: "(case vals of [] \<Rightarrow> None | v # vs \<Rightarrow> Some (is_list_or_tuple v)) = Some False"
      using Cons by simp
    have eq: "write_row lib self vals None instr =
        (case write_items lib instr (cur_offset self) (cur_offset self) 0 vals self of
           Inl e \<Rightarrow> Inl e
         | Inr s \<Rightarrow> Inr (cur_offset self + 1, s\<lparr>cur_offset := cur_offset self + 1\<rparr>))"
      unfolding write_row_def Let_def nested by (simp split: sum.splits)
    have rc: "row_count vals = 1"
      using False Cons by (simp add: row_count_def)
    have vc: "value_cells lib (cur_offset self) vals = row_cells lib (cur_offset self) 0 vals"
      using False Cons by (simp add: value_cells_def)
    show ?thesis
    proof (cases "write_items lib instr (cur_offset self) (cur_offset self) 0 vals self")
      case (Inl e)
      with eq assms show ?thesis by simp
    next
      case (Inr self1)
      with eq assms have o: "off = cur_offset self + 1"
        and s: "self' = self1\<lparr>cur_offset := cur_offset self + 1\<rparr>"
        by simp_all
      from write_items_Inr [OF Inr] show ?thesis
        unfolding rc vc o s by (simp add: written_cells_def)
    qed
  qed
qed

lemma write_rows_Inr:
  "write_rows lib self calls = Inr self' \<Longrightarrow>
   cur_offset self' = cur_offset self + sum_list (map (\<lambda>call. row_count (fst call)) calls)"
proof (induction calls arbitrary: self)
  case Nil
  then show ?case by simp
next
  case (Cons call calls)
  obtain vals instr where call: "call = (vals, instr)" by (cases call)
  with Cons.prems obtain off self1 where
    w: "write_row lib self vals None instr = Inr (off, self1)" and
    rest: "write_rows lib self1 calls = Inr self'"
    by (auto split: sum.splits)
  from write_row_Inr [OF w] Cons.IH [OF rest] call show ?case by simp
qed

text \<open>
  Claim C5. After a sequence of \<^verbatim>\<open>write_row\<close> calls without an offset that all return, the
  cursor is its initial value plus the row counts of the calls (the length of a nested list,
  one for a flat list of values, none for an empty list). A further call without an offset
  that returns writes the cells of its values from the row of the cursor on (the items of
  its \<open>i\<close>-th row at row cursor + \<open>i\<close>), returns the cursor advanced by its row count and
  leaves the cursor there.
\<close>

theorem write_row_cursor:
  assumes "write_rows lib self calls = Inr self'"
    and "write_row lib self' vals None instr = Inr (off, self'')"
  shows "cur_offset self' = cur_offset self + sum_list (map (\<lambda>call. row_count (fst call)) calls)
       \<and> written_cells self'' = written_cells self' @ value_cells lib (cur_offset self') vals
       \<and> off = cur_offset self' + row_count vals
       \<and> cur_offset self'' = off"
  using write_rows_Inr [OF assms(1)] write_row_Inr [OF assms(2)] by simp

lemma set_format_default: "set_format Formatter_default add_format = Inr add_format"
  by (simp add: set_format_def Formatter_default_def)

lemma convert_None: "convert_instructions_to_formats None r c = Inr Formatter_default"
  by (simp add: convert_instructions_to_formats_def Formatter_init_Nil)

lemma write_cell_default_ok:
  "is_open self \<Longrightarrow> \<exists>self'. write_cell self r c v Formatter_default = Inr self' \<and> is_open self'"
  by (auto simp: is_open_def write_cell_def set_format_default)

lemma write_items_None_ok:
  "is_open self \<Longrightarrow> \<exists>self'. write_items lib None fr r c items self = Inr self' \<and> is_open self'"
proof (induction items arbitrary: c self)
  case Nil
  then show ?case by simp
next
  case (Cons item items)
  from write_cell_default_ok [OF Cons.prems] obtain self1 where
    w: "write_cell self r c (serialize lib item) Formatter_default = Inr self1" and o: "is_open self1"
    by blast
  from Cons.IH [OF o] obtain self' where
    "write_items lib None fr r (c + 1) items self1 = Inr self'" "is_open self'" by blast
  with w show ?case by (simp add: convert_None)
qed

lemma write_nested_None_ok:
  "is_open self \<Longrightarrow> list_all iterable rows \<Longrightarrow>
   \<exists>n' self'. write_nested lib None off i rows n self = Inr (n', self') \<and> is_open self'"
proof (induction rows arbitrary: i n self)
  case Nil
  then show ?case by simp
next
  case (Cons row rows)
  from Cons.prems(2) obtain items where it: "py_iter row = Inr items"
    by (auto simp: iterable_def split: sum.splits)
  from write_items_None_ok [OF Cons.prems(1)] obtain self1 where
    w: "write_items lib None i (i + off) 0 items self = Inr self1" and o: "is_open self1"
    by blast
  from Cons.prems(2) have "list_all iterable rows" by simp
  from Cons.IH [OF o this] obtain n' self' where
    "write_nested lib None off (i + 1) rows (n + 1) self1 = Inr (n', self')" "is_open self'"
    by blast
  with it w show ?case by simp
qed

lemma is_open_cur_offset: "is_open (self\<lparr>cur_offset := n\<rparr>) = is_open self"
  by (simp add: is_open_def)

lemma write_row_None_ok:
  assumes "is_open self" and "list_all iterable vals \<or> \<not> is_list_or_tuple (hd vals)"
  shows "\<exists>off self'. write_row lib self vals offset_arg None = Inr (off, self') \<and> is_open self'"
proof (cases vals)
  case Nil
  with assms(1) show ?thesis
    by (simp add: write_row_def Let_def is_open_cur_offset)
next
  case (Cons v vs)
  let ?o = "case offset_arg of None \<Rightarrow> cur_offset self | Some off \<Rightarrow> off"
  show ?thesis
  proof (cases "is_list_or_tuple v")
    case True
    then have nested: "(case vals of [] \<Rightarrow> None | v # vs \<Rightarrow> Some (is_list_or_tuple v)) = Some True"
      using Cons by simp
    from True assms(2) Cons have "list_all iterable vals" by simp
    from write_nested_None_ok [OF assms(1) this] obtain n' self1 where
      "write_nested lib None ?o 0 vals ?o self = Inr (n', self1)" "is_open self1" by blast
    then show ?thesis
      unfolding write_row_def Let_def nested by (simp add: is_open_cur_offset)
  next
    case False
    then have nested: "(case vals of [] \<Rightarrow> None | v # vs \<Rightarrow> Some (is_list_or_tuple v)) = Some False"
      using Cons by simp
    from write_items_None_ok [OF assms(1)] obtain self1 where
      "write_items lib None ?o ?o 0 vals self = Inr self1" "is_open self1" by blast
    then show ?thesis
      unfolding write_row_def Let_def nested by (simp add: is_open_cur_offset)
  qed
qed

lemma write_rows_None_ok:
  "is_open self \<Longrightarrow>
   list_all (\<lambda>call. snd call = None \<and>
                (list_all iterable (fst call) \<or> \<not> is_list_or_tuple (hd (fst call)))) calls \<Longrightarrow>
   \<exists>self'. write_rows lib self calls = Inr self' \<and> is_open self'"
proof (induction calls arbitrary: self)
  case Nil
  then show ?case by simp
next
  case (Cons call calls)
  obtain vals instr where call: "call = (vals, instr)" by (cases call)
  with Cons.prems(2) have i: "instr = None"
    and v: "list_all iterable vals \<or> \<not> is_list_or_tuple (hd vals)"
    and rest: "list_all (\<lambda>call. snd call = None \<and>
                (list_all iterable (fst call) \<or> \<not> is_list_or_tuple (hd (fst call)))) calls"
    by simp_all
  from write_row_None_ok [OF Cons.prems(1) v] obtain off self1 where
    w: "write_row lib self vals None None = Inr (off, self1)" and o: "is_open self1" by blast
  from Cons.IH [OF o rest] obtain self' where
    "write_rows lib self1 calls = Inr self'" "is_open self'" by blast
  with w call i show ?case by simp
qed

theorem write_row_cursor_witness:
  "\<exists>u1 u2. write_rows sample_lib open_writer
              [([PStr ''a'', PStr ''b''], None), ([PList [PInt 1], PList [PInt 2]], None)] = Inr u1
         \<and> write_row sample_lib u1 [PStr ''c''] None None = Inr (4, u2)
         \<and> cur_offset u1 = 3 \<and> cur_offset u2 = 4
         \<and> written_cells u2 = written_cells u1 @ [(3, 0, PStr ''c'')]"
proof -
  have op: "is_open open_writer" by (simp add: is_open_def open_writer_def)
  from write_rows_None_ok [OF op, of "[([PStr ''a'', PStr ''b''], None), ([PList [PInt 1], PList [PInt 2]], None)]" sample_lib]
  obtain u1 where
    s1: "write_rows sample_lib open_writer
           [([PStr ''a'', PStr ''b''], None), ([PList [PInt 1], PList [PInt 2]], None)] = Inr u1"
    and o1: "is_open u1"
    by (auto simp: iterable_def is_list_or_tuple_def)
  from write_row_None_ok [OF o1, of "[PStr ''c'']" sample_lib None]
  obtain off u2 where s2: "write_row sample_lib u1 [PStr ''c''] None None = Inr (off, u2)"
    by (auto simp: is_list_or_tuple_def)
  from write_row_cursor [OF s1 s2]
  have "cur_offset u1 = 3" "off = 4" "cur_offset u2 = 4"
    "written_cells u2 = written_cells u1 @ [(3, 0, PStr ''c'')]"
    by (simp_all add: row_count_def value_cells_def is_list_or_tuple_def open_writer_def)
  with s1 s2 show ?thesis by blast
qed

subsection \<open>The offset returned by \<^verbatim>\<open>create_new\<close>, and the header row of the report\<close>

lemma create_rows_idx:
  "create_rows lib instr off i rows ri self = Inr (ri', self') \<Longrightarrow>
   ri' = (if rows = [] then ri else i + int (length rows) - 1)"
proof (induction rows arbitrary: i ri self)
  case Nil
  then show ?case by simp
next
  case (Cons row rows)
  from Cons.prems obtain self1 where
    "create_rows lib instr off (i + 1) rows i self1 = Inr (ri', self')"
    by (auto split: sum.splits)
  from Cons.IH [OF this] show ?case by simp
qed

lemma create_new_offset:
  assumes "create_new lib ex self path vals ov sheet hs instr = Inr (off, self')"
  shows "off = (if vals = [] then 1 else int (length vals))
                 + (if hs = None \<or> hs = Some [] then 0 else 1)
         \<and> cur_offset self' = off"
proof -
  let ?h = "(case hs of None \<Rightarrow> [] | Some hs \<Rightarrow> hs) \<noteq> []"
  have h: "?h = (\<not> (hs = None \<or> hs = Some []))" by (cases hs) simp_all
  from assms obtain self3 ri self4 where
    c: "create_rows lib instr (if ?h then 1 else 0) 0 vals 0 self3 = Inr (ri, self4)"
    and o: "off = ri + 1 + (if ?h then 1 else 0)" and s: "cur_offset self' = off"
    unfolding create_new_def Let_def
    by (auto split: sum.splits if_splits)
  from create_rows_idx [OF c] o s h show ?thesis by auto
qed

text \<open>
  Claim C6. \<^verbatim>\<open>create_new\<close> with a header row and an empty list of rows writes the header row
  and returns 2, not 1: the loop variable \<^verbatim>\<open>row_idx\<close> keeps its initial value 0 when the loop
  over the rows does not run, and the function returns \<^verbatim>\<open>row_idx + 1 + offset\<close>.
\<close>

theorem create_new_header_only:
  "(case create_new lib False ExcelUtils_init ''report.xlsx'' [] False ''Sheet1''
           (Some [PStr ''Name'']) None of
      Inl e \<Rightarrow> False
    | Inr (off, self) \<Rightarrow> off = 2 \<and> cur_offset self = 2
        \<and> written_cells self = [(0, 0, PStr ''Name'')])"
  by code_simp

lemma initial_fmt:
  "get_initial_row_formatting headers =
     \<lparr> row_tier = None,
       column_tier = Some [(PStr ''0'', 0), (PStr ''1'', 1), (PStr ''2'', 2), (PStr ''3'', 3),
                           (PStr ''4'', 4)],
       cell_tier = None,
       objects = [(0, uniform_format), (1, uniform_format), (2, uniform_format),
                  (3, uniform_format),
                  (4, [(''font_styles'', PList [PStr ''bold'']),
                       (''text_color'', PStr ''black''),
                       (''bg_color'', PStr ''#99CCFF''),
                       (''cell_borders'', PList [PStr ''top'', PStr ''right''])])] \<rparr>"
  by code_simp

lemma report_empty_table:
  "(case write_report lib ex path [] of
      Inl e \<Rightarrow> False
    | Inr self \<Rightarrow>
        written_cells self =
          [(0, 0, PStr ''Pipeline Name''), (0, 1, PStr ''Task Name''), (0, 2, PStr ''Type''),
           (0, 3, PStr ''Details''), (0, 4, PStr ''Depency Task: Condition'')])"
  unfolding write_report_def Let_def initial_fmt
  by (simp add: create_new_def ExcelUtils_init_def headers_def uniform_format_def
      str_int_def str_nat.simps convert_instructions_to_formats_def tier_entry_def Let_def
      obj_at_def
      Formatter_init_def formatter_fields_def write_cell_def set_format_def written_cells_def
      kwarg_def set_font_style_def set_border_def add_format_def)

text \<open>
  Claim C9. The first row of the sheet the script writes holds the header of the script, whose
  last column is spelled \<^verbatim>\<open>Depency Task: Condition\<close> and not
  \<^verbatim>\<open>Dependency Task: Condition\<close>. Evaluated for the document \<^verbatim>\<open>{"name": "PL1"}\<close>, which has no
  activity; \<open>report_header_row\<close> below gives the same first row for every table.
\<close>

theorem report_first_row:
  "(case script lib ex path (PDict [(''name'', PStr ''PL1'')]) of
      Inl e \<Rightarrow> False
    | Inr self \<Rightarrow>
        written_cells self =
          [(0, 0, PStr ''Pipeline Name''), (0, 1, PStr ''Task Name''), (0, 2, PStr ''Type''),
           (0, 3, PStr ''Details''), (0, 4, PStr ''Depency Task: Condition'')])"
proof -
  have e: "extract_document lib (PDict [(''name'', PStr ''PL1'')]) =
             Inr \<lparr> pipeline_name_flag = False, pipeline_name = ''PL1'', table_data = [] \<rparr>"
    by code_simp
  show ?thesis
    using report_empty_table [of lib ex path] by (simp add: script_def e)
qed

lemma row_cells_rows: "list_all (\<lambda>cell. fst cell = r) (row_cells lib r c items)"
  by (induction items arbitrary: c) simp_all

lemma nested_cells_rows: "list_all (\<lambda>cell. r \<le> fst cell) (nested_cells lib r rows)"
proof (induction rows arbitrary: r)
  case Nil
  then show ?case by simp
next
  case (Cons row rows)
  have a: "list_all (\<lambda>cell. r \<le> fst cell)
             (case py_iter row of Inl e \<Rightarrow> [] | Inr items \<Rightarrow> row_cells lib r 0 items)"
    using row_cells_rows [of r lib 0]
    by (cases "py_iter row") (simp_all add: list_all_iff)
  have "list_all (\<lambda>cell. r + 1 \<le> fst cell) (nested_cells lib (r + 1) rows)"
    by (rule Cons.IH)
  then have "list_all (\<lambda>cell. r \<le> fst cell) (nested_cells lib (r + 1) rows)"
    by (simp add: list_all_iff) force
  with a show ?case by simp
qed

lemma value_cells_rows: "list_all (\<lambda>cell. r \<le> fst cell) (value_cells lib r vals)"
proof (cases vals)
  case Nil
  then show ?thesis by (simp add: value_cells_def)
next
  case (Cons v vs)
  show ?thesis
  proof (cases "is_list_or_tuple v")
    case True
    with Cons nested_cells_rows [of r lib vals] show ?thesis by (simp add: value_cells_def)
  next
    case False
    with Cons row_cells_rows [of r lib 0 vals] show ?thesis
      by (simp add: value_cells_def list_all_iff)
  qed
qed

lemma row_count_nonneg: "0 \<le> row_count vals"
  by (cases vals) (simp_all add: row_count_def)

lemma write_table_Inr:
  "write_table lib rows self = Inr self' \<Longrightarrow>
   \<exists>ext. written_cells self' = written_cells self @ ext
       \<and> list_all (\<lambda>cell. cur_offset self \<le> fst cell) ext"
proof (induction rows arbitrary: self)
  case Nil
  then show ?case by simp
next
  case (Cons row rows)
  from Cons.prems obtain off self1 where
    w: "write_row lib self row None
          (Some (get_rest_rows_formatting 1 (replicate (length headers) (PStr [])))) = Inr (off, self1)"
    and rest: "write_table lib rows self1 = Inr self'"
    by (auto simp: Let_def split: sum.splits)
  from write_row_Inr [OF w] have
    o: "cur_offset self1 = cur_offset self + row_count row"
    and c: "written_cells self1 = written_cells self @ value_cells lib (cur_offset self) row"
    by simp_all
  from Cons.IH [OF rest] obtain ext where
    e: "written_cells self' = written_cells self1 @ ext"
    and a: "list_all (\<lambda>cell. cur_offset self1 \<le> fst cell) ext" by blast
  from a o row_count_nonneg [of row] have "list_all (\<lambda>cell. cur_offset self \<le> fst cell) ext"
    by (simp add: list_all_iff) force
  with value_cells_rows [of "cur_offset self" lib row]
  have "list_all (\<lambda>cell. cur_offset self \<le> fst cell) (value_cells lib (cur_offset self) row @ ext)"
    by simp
  with e c show ?case by simp
qed

lemma header_written:
  "(case create_new lib ex ExcelUtils_init path [PList headers] True ''Sheet1'' None
           (Some (get_initial_row_formatting headers)) of
      Inl e \<Rightarrow> False
    | Inr (off, self) \<Rightarrow>
        cur_offset self = 1 \<and>
        written_cells self =
          [(0, 0, PStr ''Pipeline Name''), (0, 1, PStr ''Task Name''), (0, 2, PStr ''Type''),
           (0, 3, PStr ''Details''), (0, 4, PStr ''Depency Task: Condition'')])"
  unfolding initial_fmt
  by (simp add: create_new_def ExcelUtils_init_def headers_def uniform_format_def
      str_int_def str_nat.simps convert_instructions_to_formats_def tier_entry_def Let_def
      obj_at_def
      Formatter_init_def formatter_fields_def write_cell_def set_format_def written_cells_def
      kwarg_def set_font_style_def set_border_def add_format_def)

lemma report_header_row:
  assumes "write_report lib ex path rows = Inr self"
  shows "\<exists>ext. written_cells self =
           [(0, 0, PStr ''Pipeline Name''), (0, 1, PStr ''Task Name''), (0, 2, PStr ''Type''),
            (0, 3, PStr ''Details''), (0, 4, PStr ''Depency Task: Condition'')] @ ext
         \<and> list_all (\<lambda>cell. 1 \<le> fst cell) ext"
proof (cases "create_new lib ex ExcelUtils_init path [PList headers] True ''Sheet1'' None
           (Some (get_initial_row_formatting headers))")
  case (Inl e)
  with header_written [of lib ex path] show ?thesis by simp
next
  case (Inr res)
  obtain off self0 where res: "res = (off, self0)" by (cases res)
  with Inr header_written [of lib ex path] have
    o: "cur_offset self0 = 1" and
    c: "written_cells self0 =
          [(0, 0, PStr ''Pipeline Name''), (0, 1, PStr ''Task Name''), (0, 2, PStr ''Type''),
           (0, 3, PStr ''Details''), (0, 4, PStr ''Depency Task: Condition'')]"
    by simp_all
  from assms Inr res have "write_table lib rows self0 = Inr self"
    by (simp add: write_report_def Let_def)
  from write_table_Inr [OF this] o c show ?thesis by simp
qed

subsection \<open>Filters and date columns of \<^verbatim>\<open>get_rows\<close>\<close>

text \<open>
  With the filter list \<^verbatim>\<open>[None, "B"]\<close>, the result is not the single row \<^verbatim>\<open>["x","B"]\<close>.
\<close>

theorem null_filter_counterexample:
  "get_rows sample_lib
     [[PStr ''h1'', PStr ''h2''], [PStr ''x'', PStr ''B''], [PStr ''x'', PStr ''C'']]
     (Some [PNone, PStr ''B'']) False None
   \<noteq> Inr (Some [[PStr ''x'', PStr ''B'']])"
  by code_simp

lemma get_row_cells_filters:
  "\<exists>rv'. get_row_cells lib fs [] idx cells rv d =
            Inr (rv', d \<or> \<not> row_passes (drop idx fs) cells)
        \<and> (\<not> (d \<or> \<not> row_passes (drop idx fs) cells) \<longrightarrow> rv' = rv @ cells)"
proof (induction cells arbitrary: idx rv d)
  case Nil
  then show ?case by (simp add: row_passes_def)
next
  case (Cons c cells)
  show ?case
  proof (cases "idx < length fs")
    case True
    then have dr: "drop idx fs = fs ! idx # drop (Suc idx) fs"
      by (simp add: Cons_nth_drop_Suc)
    from True have ne: "fs \<noteq> []" by auto
    have rp: "row_passes (drop idx fs) (c # cells) =
                (py_eq c (fs ! idx) \<and> row_passes (drop (Suc idx) fs) cells)"
      by (simp add: row_passes_def dr)
    show ?thesis
    proof (cases "py_eq c (fs ! idx)")
      case eq: True
      show ?thesis
      proof (cases d)
        case True
        with Cons.IH [of "Suc idx" rv True] eq ne \<open>idx < length fs\<close> rp show ?thesis by simp
      next
        case False
        with Cons.IH [of "Suc idx" "rv @ [c]" False] eq ne \<open>idx < length fs\<close> rp
        show ?thesis by simp
      qed
    next
      case neq: False
      with Cons.IH [of "Suc idx" rv True] ne \<open>idx < length fs\<close> rp show ?thesis by simp
    qed
  next
    case False
    then have rp: "row_passes (drop idx fs) (c # cells)" "row_passes (drop (Suc idx) fs) cells"
      by (simp_all add: row_passes_def)
    show ?thesis
    proof (cases d)
      case True
      with Cons.IH [of "Suc idx" rv True] False rp show ?thesis by simp
    next
      case d: False
      with Cons.IH [of "Suc idx" "rv @ [c]" False] False rp show ?thesis by simp
    qed
  qed
qed

lemma get_rows_loop_filters:
  "get_rows_loop lib fs [] (Some acc) sheet_rows =
     Inr (Some (acc @ filter (\<lambda>row. row \<noteq> [] \<and> row_passes fs row) sheet_rows))"
proof (induction sheet_rows arbitrary: acc)
  case Nil
  then show ?case by simp
next
  case (Cons row sheet_rows)
  from get_row_cells_filters [of lib fs 0 row "[]" False] obtain rv' where
    g: "get_row_cells lib fs [] 0 row [] False = Inr (rv', \<not> row_passes fs row)"
    and rv: "row_passes fs row \<longrightarrow> rv' = row"
    by auto
  show ?case
  proof (cases "row_passes fs row")
    case True
    with g rv Cons.IH [of "acc @ [row]"] Cons.IH [of acc] show ?thesis by simp
  next
    case False
    with g Cons.IH [of acc] show ?thesis by simp
  qed
qed

lemma get_rows_filtered:
  "get_rows lib current_sheet_rows (Some fs) False None =
     Inr (Some (filter (\<lambda>row. row \<noteq> [] \<and> row_passes fs row) (drop 1 current_sheet_rows)))"
  by (simp add: get_rows_def get_rows_loop_filters)

text \<open>
  Claim C7, as the code has it. On a sheet whose rows after the header are \<^verbatim>\<open>["x","B"]\<close> and
  \<^verbatim>\<open>["x","C"]\<close>, \<^verbatim>\<open>get_rows\<close> with the filter list \<^verbatim>\<open>[None, "B"]\<close> returns no row: \<^verbatim>\<open>None\<close> is
  compared with the first cell like any other value, so both rows are left out. With the
  filter list \<^verbatim>\<open>["x", "B"]\<close> it returns exactly the row \<^verbatim>\<open>["x","B"]\<close>.
\<close>

theorem filter_scenario:
  "get_rows lib
     [[PStr ''h1'', PStr ''h2''], [PStr ''x'', PStr ''B''], [PStr ''x'', PStr ''C'']]
     (Some [PNone, PStr ''B'']) False None = Inr (Some [])
   \<and> get_rows lib
     [[PStr ''h1'', PStr ''h2''], [PStr ''x'', PStr ''B''], [PStr ''x'', PStr ''C'']]
     (Some [PStr ''x'', PStr ''B'']) False None = Inr (Some [[PStr ''x'', PStr ''B'']])"
  by code_simp

lemma sanitize_date_text:
  "text_cell v \<Longrightarrow> \<exists>w. sanitize_date lib v = Inr w"
  by (cases v) simp_all

lemma sanitize_date_unparsed:
  "first_parse lib s accepted_formats = None \<Longrightarrow> sanitize_date lib (PStr s) = Inr PNone"
  by (simp add: is_datetime_def Let_def)

lemma get_row_cells_text:
  "list_all text_cell cells \<Longrightarrow>
   \<exists>res. get_row_cells lib filters sd idx cells row_values disregard = Inr res"
proof (induction cells arbitrary: idx row_values disregard)
  case Nil
  show ?case by simp
next
  case (Cons cell cells)
  then have t: "text_cell cell" and ts: "list_all text_cell cells" by simp_all
  from sanitize_date_text [OF t] obtain w where w: "sanitize_date lib cell = Inr w" ..
  note ih = Cons.IH [OF ts]
  let ?d = "(if filters \<noteq> [] \<and> idx < length filters \<and> \<not> py_eq cell (filters ! idx)
             then True else disregard)"
  show ?case
  proof (cases ?d)
    case True
    then have "get_row_cells lib filters sd idx (cell # cells) row_values disregard =
               get_row_cells lib filters sd (idx + 1) cells row_values True"
      by (simp add: Let_def)
    with ih show ?thesis by simp
  next
    case False
    then have "get_row_cells lib filters sd idx (cell # cells) row_values disregard =
               get_row_cells lib filters sd (idx + 1) cells
                 (row_values @ [if sd \<noteq> [] \<and> int idx \<in> set sd then w else cell]) False"
      by (simp add: Let_def w)
    with ih show ?thesis by simp
  qed
qed

lemma get_rows_loop_text:
  "list_all (list_all text_cell) sheet_rows \<Longrightarrow>
   \<exists>rows. get_rows_loop lib filters sd (Some rs) sheet_rows = Inr (Some rows)"
proof (induction sheet_rows arbitrary: rs)
  case Nil
  show ?case by simp
next
  case (Cons row sheet_rows)
  then have t: "list_all text_cell row" and ts: "list_all (list_all text_cell) sheet_rows"
    by simp_all
  from get_row_cells_text [OF t] obtain res where
    res: "get_row_cells lib filters sd 0 row [] False = Inr res" by blast
  obtain row_values disregard where rd: "res = (row_values, disregard)" by (cases res)
  note ih = Cons.IH [OF ts]
  show ?case
  proof (cases "row_values \<noteq> [] \<and> \<not> disregard")
    case True
    then have "get_rows_loop lib filters sd (Some rs) (row # sheet_rows) =
               get_rows_loop lib filters sd (Some (rs @ [row_values])) sheet_rows"
      by (simp add: res rd)
    with ih show ?thesis by simp
  next
    case False
    then have "get_rows_loop lib filters sd (Some rs) (row # sheet_rows) =
               get_rows_loop lib filters sd (Some rs) sheet_rows"
      by (auto simp add: res rd)
    with ih show ?thesis by simp
  qed
qed

lemma get_rows_text:
  "list_all (list_all text_cell) sheet_rows \<Longrightarrow>
   \<exists>rows. get_rows lib sheet_rows filters_arg False sanitize_arg = Inr (Some rows)"
  unfolding get_rows_def Let_def
  using get_rows_loop_text [of "drop 1 sheet_rows"]
  by (simp add: list_all_iff) (meson in_set_dropD)

text \<open>
  Claim C8. The sheet has the header \<^verbatim>\<open>Date\<close> and one row, whose cell is the text \<^verbatim>\<open>hello\<close>, and
  column 0 is flagged for date coercion. No format of \<^verbatim>\<open>is_datetime\<close> parses the text: the
  function returns \<^verbatim>\<open>(True, None)\<close>, \<^verbatim>\<open>get_rows\<close> drops the flag, raises nothing, and returns the
  row with \<^verbatim>\<open>None\<close> in the cell. By \<open>get_rows_text\<close> above a sheet of text cells never makes
  \<^verbatim>\<open>get_rows\<close> raise, whatever the filters and the date columns.
\<close>

theorem unparsed_date_text_read_as_none:
  "get_rows sample_lib [[PStr ''Date''], [PStr ''hello'']] None False (Some [0])
     = Inr (Some [[PNone]])
   \<and> is_datetime sample_lib ''hello'' = (True, PNone)"
  by code_simp

subsection \<open>The pipeline name and the dependency field of the extractor\<close>

lemma continues_refl: "continues s s"
  by (simp add: continues_def)

lemma continues_trans:
  assumes "continues s s1" and "continues s1 s2"
  shows "continues s s2"
proof -
  from assms(1) obtain e1 where e1: "table_data s1 = table_data s @ e1"
    "list_all (\<lambda>row. row_pipeline row = Some (PStr (pipeline_name s1))) e1"
    "pipeline_name_flag s1 \<longrightarrow> e1 = []"
    and k1: "\<not> pipeline_name_flag s \<longrightarrow> \<not> pipeline_name_flag s1 \<and> pipeline_name s1 = pipeline_name s"
    unfolding continues_def by blast
  from assms(2) obtain e2 where e2: "table_data s2 = table_data s1 @ e2"
    "list_all (\<lambda>row. row_pipeline row = Some (PStr (pipeline_name s2))) e2"
    "pipeline_name_flag s2 \<longrightarrow> e2 = []"
    and k2: "\<not> pipeline_name_flag s1 \<longrightarrow> \<not> pipeline_name_flag s2 \<and> pipeline_name s2 = pipeline_name s1"
    unfolding continues_def by blast
  have t: "table_data s2 = table_data s @ (e1 @ e2)" using e1(1) e2(1) by simp
  have a: "list_all (\<lambda>row. row_pipeline row = Some (PStr (pipeline_name s2))) (e1 @ e2)"
  proof (cases "pipeline_name_flag s1")
    case True
    with e1(3) e2(2) show ?thesis by simp
  next
    case False
    with k2 e1(2) e2(2) show ?thesis by simp
  qed
  have f: "pipeline_name_flag s2 \<longrightarrow> e1 @ e2 = []"
    using e1(3) e2(3) k2 by blast
  have k: "\<not> pipeline_name_flag s \<longrightarrow> \<not> pipeline_name_flag s2 \<and> pipeline_name s2 = pipeline_name s"
    using k1 k2 by simp
  show ?thesis unfolding continues_def using t a f k by blast
qed

lemma record_activity_continues:
  assumes "record_activity lib i n p s = Inr s'" and "\<not> pipeline_name_flag s"
  shows "continues s s'"
  using assms
  by (auto simp: record_activity_def Let_def continues_def row_pipeline_def
      split: sum.splits if_splits)

lemma capture_continues:
  "pipeline_name_flag s \<Longrightarrow> continues s (s\<lparr>pipeline_name_flag := False, pipeline_name := n\<rparr>)"
  by (simp add: continues_def)

lemma rpi_continues:
  "(\<forall>s'. rpi_dict lib i es p cur s = Inr s' \<longrightarrow> continues s s')"
  "(\<forall>s'. rpi_list lib xs p s = Inr s' \<longrightarrow> continues s s')"
proof (induction lib i es p cur s and lib xs p s rule: rpi_dict_rpi_list.induct)
  case (1 lib input_data parent_task_name current_task_name self)
  then show ?case by (simp add: continues_refl)
next
  case (2 lib input_data data name rest parent_task_name current_task_name self)
  show ?case
  proof (intro allI impI)
    fix s' assume r: "rpi_dict lib input_data ((data, PStr name) # rest) parent_task_name
                        current_task_name self = Inr s'"
    show "continues self s'"
    proof (cases "data = ''name''")
      case False
      with r 2(3) show ?thesis by simp
    next
      case True
      show ?thesis
      proof (cases "pipeline_name_flag self")
        case flag: True
        with r True 2(1) have
          "continues (self\<lparr>pipeline_name_flag := False, pipeline_name := name\<rparr>) s'" by simp
        with capture_continues [OF flag] show ?thesis by (rule continues_trans)
      next
        case flag: False
        with r True obtain s1 where
          a: "record_activity lib input_data name parent_task_name self = Inr s1"
          and b: "rpi_dict lib input_data rest parent_task_name (Some name) s1 = Inr s'"
          by (auto split: sum.splits)
        from 2(2) [OF True flag a] b have "continues s1 s'" by simp
        with record_activity_continues [OF a flag] show ?thesis by (rule continues_trans)
      qed
    qed
  qed
next
  case (3 lib input_data data d rest parent_task_name current_task_name self)
  show ?case
  proof (intro allI impI)
    fix s' assume r: "rpi_dict lib input_data ((data, PDict d) # rest) parent_task_name
                        current_task_name self = Inr s'"
    then obtain s1 where
      a: "rpi_dict lib d d (or_parent current_task_name parent_task_name) None self = Inr s1"
      and b: "rpi_dict lib input_data rest parent_task_name current_task_name s1 = Inr s'"
      by (auto split: sum.splits)
    from 3(1) a have "continues self s1" by simp
    moreover from 3(2) [OF a] b have "continues s1 s'" by simp
    ultimately show "continues self s'" by (rule continues_trans)
  qed
next
  case (4 lib input_data data xs rest parent_task_name current_task_name self)
  show ?case
  proof (intro allI impI)
    fix s' assume r: "rpi_dict lib input_data ((data, PList xs) # rest) parent_task_name
                        current_task_name self = Inr s'"
    then obtain s1 where
      a: "rpi_list lib xs (or_parent current_task_name parent_task_name) self = Inr s1"
      and b: "rpi_dict lib input_data rest parent_task_name current_task_name s1 = Inr s'"
      by (auto split: sum.splits)
    from 4(1) a have "continues self s1" by simp
    moreover from 4(2) [OF a] b have "continues s1 s'" by simp
    ultimately show "continues self s'" by (rule continues_trans)
  qed
next
  case (7 lib d rest parent_task_name self)
  show ?case
  proof (intro allI impI)
    fix s' assume r: "rpi_list lib (PDict d # rest) parent_task_name self = Inr s'"
    then obtain s1 where
      a: "rpi_dict lib d d parent_task_name None self = Inr s1"
      and b: "rpi_list lib rest parent_task_name s1 = Inr s'"
      by (auto split: sum.splits)
    from 7(1) a have "continues self s1" by simp
    moreover from 7(2) [OF a] b have "continues s1 s'" by simp
    ultimately show "continues self s'" by (rule continues_trans)
  qed
qed (simp_all add: continues_refl)

lemma continues_name:
  "continues s s' \<Longrightarrow> \<not> pipeline_name_flag s \<Longrightarrow>
   \<not> pipeline_name_flag s' \<and> pipeline_name s' = pipeline_name s"
  by (simp add: continues_def)

lemma continues_table:
  "continues s s' \<Longrightarrow> \<exists>ext. table_data s' = table_data s @ ext"
  unfolding continues_def by blast

lemma captured_after:
  assumes "captured (Some n) s s1" and "continues s1 s'"
  shows "captured (Some n) s s'"
  using assms by (simp add: captured_def continues_def)

lemma captured_none_then:
  assumes "captured None s s1" and "captured f s1 s'"
  shows "captured f s s'"
  using assms by (cases f) (simp_all add: captured_def)

lemma rpi_captured:
  "pipeline_name_flag s \<longrightarrow>
     (\<forall>s'. rpi_dict lib i es p cur s = Inr s' \<longrightarrow> captured (first_name_dict es) s s')"
  "pipeline_name_flag s \<longrightarrow>
     (\<forall>s'. rpi_list lib xs p s = Inr s' \<longrightarrow> captured (first_name_list xs) s s')"
proof (induction lib i es p cur s and lib xs p s rule: rpi_dict_rpi_list.induct)
  case (1 lib input_data parent_task_name current_task_name self)
  then show ?case by (simp add: captured_def)
next
  case (2 lib input_data data name rest parent_task_name current_task_name self)
  show ?case
  proof (intro allI impI)
    fix s' assume flag: "pipeline_name_flag self"
      and r: "rpi_dict lib input_data ((data, PStr name) # rest) parent_task_name
                        current_task_name self = Inr s'"
    show "captured (first_name_dict ((data, PStr name) # rest)) self s'"
    proof (cases "data = ''name''")
      case False
      with r flag 2(3) show ?thesis by simp
    next
      case True
      let ?s1 = "self\<lparr>pipeline_name_flag := False, pipeline_name := name\<rparr>"
      from r True flag have
        "rpi_dict lib input_data rest parent_task_name current_task_name ?s1 = Inr s'" by simp
      with rpi_continues(1) have "continues ?s1 s'" by blast
      then have "\<not> pipeline_name_flag s' \<and> pipeline_name s' = name"
        using continues_name [of ?s1 s'] by simp
      with True show ?thesis by (simp add: captured_def)
    qed
  qed
next
  case (3 lib input_data data d rest parent_task_name current_task_name self)
  show ?case
  proof (intro allI impI)
    fix s' assume flag: "pipeline_name_flag self"
      and r: "rpi_dict lib input_data ((data, PDict d) # rest) parent_task_name
                        current_task_name self = Inr s'"
    then obtain s1 where
      a: "rpi_dict lib d d (or_parent current_task_name parent_task_name) None self = Inr s1"
      and b: "rpi_dict lib input_data rest parent_task_name current_task_name s1 = Inr s'"
      by (auto split: sum.splits)
    from 3(1) flag a have c1: "captured (first_name_dict d) self s1" by simp
    show "captured (first_name_dict ((data, PDict d) # rest)) self s'"
    proof (cases "first_name_dict d")
      case None
      with c1 have "pipeline_name_flag s1" by (simp add: captured_def)
      with 3(2) [OF a] b have "captured (first_name_dict rest) s1 s'" by simp
      with c1 None show ?thesis by (simp add: captured_none_then)
    next
      case (Some n)
      from rpi_continues(1) b have "continues s1 s'" by blast
      with c1 Some show ?thesis by (simp add: captured_after)
    qed
  qed
next
  case (4 lib input_data data xs rest parent_task_name current_task_name self)
  show ?case
  proof (intro allI impI)
    fix s' assume flag: "pipeline_name_flag self"
      and r: "rpi_dict lib input_data ((data, PList xs) # rest) parent_task_name
                        current_task_name self = Inr s'"
    then obtain s1 where
      a: "rpi_list lib xs (or_parent current_task_name parent_task_name) self = Inr s1"
      and b: "rpi_dict lib input_data rest parent_task_name current_task_name s1 = Inr s'"
      by (auto split: sum.splits)
    from 4(1) flag a have c1: "captured (first_name_list xs) self s1" by simp
    show "captured (first_name_dict ((data, PList xs) # rest)) self s'"
    proof (cases "first_name_list xs")
      case None
      with c1 have "pipeline_name_flag s1" by (simp add: captured_def)
      with 4(2) [OF a] b have "captured (first_name_dict rest) s1 s'" by simp
      with c1 None show ?thesis by (simp add: captured_none_then)
    next
      case (Some n)
      from rpi_continues(1) b have "continues s1 s'" by blast
      with c1 Some show ?thesis by (simp add: captured_after)
    qed
  qed
next
  case (6 lib parent_task_name self)
  then show ?case by (simp add: captured_def)
next
  case (7 lib d rest parent_task_name self)
  show ?case
  proof (intro allI impI)
    fix s' assume flag: "pipeline_name_flag self"
      and r: "rpi_list lib (PDict d # rest) parent_task_name self = Inr s'"
    then obtain s1 where
      a: "rpi_dict lib d d parent_task_name None self = Inr s1"
      and b: "rpi_list lib rest parent_task_name s1 = Inr s'"
      by (auto split: sum.splits)
    from 7(1) flag a have c1: "captured (first_name_dict d) self s1" by simp
    show "captured (first_name_list (PDict d # rest)) self s'"
    proof (cases "first_name_dict d")
      case None
      with c1 have "pipeline_name_flag s1" by (simp add: captured_def)
      with 7(2) [OF a] b have "captured (first_name_list rest) s1 s'" by simp
      with c1 None show ?thesis by (simp add: captured_none_then)
    next
      case (Some n)
      from rpi_continues(2) b have "continues s1 s'" by blast
      with c1 Some show ?thesis by (simp add: captured_after)
    qed
  qed
qed simp_all

text \<open>
  Claim C4, as the code has it. For a document parsed as one pipeline (by
  \<^verbatim>\<open>recursive_parsing_Individual\<close>), a traversal that returns has set the pipeline name at most
  once: to the first name it met, if the flag was up and there is one; a generator whose
  flag is down keeps its flag and its pipeline name through every further name; and every
  row the traversal appends carries the pipeline name it ends with.
\<close>

theorem pipeline_name_captured_once:
  assumes "recursive_parsing_Individual lib (PDict d) p s = Inr s'"
  shows "continues s s' \<and> (pipeline_name_flag s \<longrightarrow> captured (first_name_dict d) s s')"
  using assms rpi_continues(1) [of lib d d p None s] rpi_captured(1) [of s lib d d p None]
  by (simp add: recursive_parsing_Individual_def)

lemma lookup_doc_run:
  "recursive_parsing_Individual sample_lib lookup_doc [] ADFPipelineDocGenerator_init =
     Inr \<lparr> pipeline_name_flag = False, pipeline_name = ''PL1'',
           table_data = [[PStr ''PL1'', PStr ''A1'', PStr ''Lookup'',
                          PStr ''sp_x ,    Parameters: p1: 5'', PStr []]] \<rparr>"
  by code_simp

theorem pipeline_name_captured_once_witness:
  "\<exists>s'. recursive_parsing_Individual sample_lib lookup_doc [] ADFPipelineDocGenerator_init = Inr s'
        \<and> pipeline_name s' = ''PL1'' \<and> \<not> pipeline_name_flag s'
        \<and> continues ADFPipelineDocGenerator_init s'"
proof -
  let ?s' = "\<lparr> pipeline_name_flag = False, pipeline_name = ''PL1'',
           table_data = [[PStr ''PL1'', PStr ''A1'', PStr ''Lookup'',
                          PStr ''sp_x ,    Parameters: p1: 5'', PStr []]] \<rparr>"
  have e: "recursive_parsing_Individual sample_lib lookup_doc [] ADFPipelineDocGenerator_init
             = Inr ?s'"
    by (rule lookup_doc_run)
  from pipeline_name_captured_once [OF e [unfolded lookup_doc_def]]
  have "continues ADFPipelineDocGenerator_init ?s'"
    and "captured (Some ''PL1'') ADFPipelineDocGenerator_init ?s'"
    by (simp_all add: ADFPipelineDocGenerator_init_def)
  with e show ?thesis by (simp add: captured_def)
qed

text \<open>
  In a template with two pipelines the pipeline name is set twice: it ends as the name of the
  second pipeline, and the two rows carry the two names.
\<close>

theorem template_names_counterexample:
  "(case extract_document sample_lib template_doc of
      Inl e \<Rightarrow> False
    | Inr doc_gen \<Rightarrow>
        pipeline_name doc_gen = ''PL2''
        \<and> map row_pipeline (table_data doc_gen) = [Some (PStr ''PL1''), Some (PStr ''PL2'')])"
  by code_simp

text \<open>
  Claim C3. An object with a name and the type \<^verbatim>\<open>ExecutePipeline\<close> is not recorded: the list
  \<^verbatim>\<open>tasks\<close> of the traversals has no entry that occurs in \<^verbatim>\<open>ExecutePipeline\<close>, so the branch
  of \<^verbatim>\<open>parse_task_details\<close> for this type and its formatter are never reached. Evaluated on
  a pipeline with one such activity: the table stays empty, while the formatter, called on
  the activity, gives its detail text.
\<close>

theorem execute_pipeline_not_recorded:
  "extract_document lib execute_doc =
     Inr \<lparr> pipeline_name_flag = False, pipeline_name = ''PL1'', table_data = [] \<rparr>
   \<and> any_task_in (PStr ''ExecutePipeline'') = Inr False
   \<and> parse_task_details lib (PStr ''ExecutePipeline'') execute_activity =
       Inr (PStr ''Child pipeline Name : Child'')"
  by code_simp


lemma name_first_run:
  "recursive_parsing_Individual sample_lib name_first_doc [] ADFPipelineDocGenerator_init =
     Inr \<lparr> pipeline_name_flag = False, pipeline_name = ''PL'',
           table_data = [[PStr ''PL'', PStr ''A'', PStr ''IfCondition'', PStr [], PStr []],
                         [PStr ''PL'', PStr ''B'', PStr ''Wait'', PStr [], PStr ''A'']] \<rparr>"
  by code_simp

lemma parse_dependsOn_absent:
  "map_of d ''dependsOn'' = None \<or> map_of d ''dependsOn'' = Some (PList []) \<Longrightarrow>
   parse_dependsOn (dict_get d ''dependsOn'' (PStr [])) = Inr PNone"
  by (auto simp: parse_dependsOn_def dict_get_def)

lemma record_activity_row:
  assumes r: "record_activity lib i n p s = Inr s'"
    and t: "any_task_in (dict_get i ''type'' (PStr [])) = Inr True"
    and d: "map_of i ''dependsOn'' = None \<or> map_of i ''dependsOn'' = Some (PList [])"
  shows "\<exists>details. table_data s' = table_data s @
           [[PStr (pipeline_name s), PStr n, dict_get i ''type'' (PStr []), details, PStr p]]"
proof (cases "parse_task_details lib (dict_get i ''type'' (PStr [])) i")
  case (Inl e)
  with r t show ?thesis by (simp add: record_activity_def Let_def)
next
  case (Inr details)
  with r t parse_dependsOn_absent [OF d] have
    "s' = s\<lparr>table_data := table_data s @
        [[PStr (pipeline_name s), PStr n, dict_get i ''type'' (PStr []),
          (if truthy details then details else PStr []), PStr p]]\<rparr>"
    by (simp add: record_activity_def Let_def)
  then show ?thesis by simp
qed

lemma rpi_dict_Cons_Inr:
  assumes "rpi_dict lib i ((k, v) # es) p cur s = Inr s'" and "\<not> pipeline_name_flag s"
  shows "\<exists>s1 cur1. rpi_dict lib i es p cur1 s1 = Inr s' \<and> continues s s1
           \<and> (k = ''name'' \<longrightarrow> (\<forall>n. v = PStr n \<longrightarrow> record_activity lib i n p s = Inr s1))"
proof (cases v)
  case (PStr name)
  show ?thesis
  proof (cases "k = ''name''")
    case True
    with assms PStr obtain s1 where
      a: "record_activity lib i name p s = Inr s1"
      and b: "rpi_dict lib i es p (Some name) s1 = Inr s'"
      by (auto split: sum.splits)
    from record_activity_continues [OF a assms(2)] a b PStr show ?thesis by blast
  next
    case False
    with assms PStr have "rpi_dict lib i es p cur s = Inr s'" by simp
    with False continues_refl show ?thesis by blast
  qed
next
  case (PDict d)
  with assms obtain s1 where
    a: "rpi_dict lib d d (or_parent cur p) None s = Inr s1"
    and b: "rpi_dict lib i es p cur s1 = Inr s'"
    by (auto split: sum.splits)
  from rpi_continues(1) a have "continues s s1" by blast
  with b PDict show ?thesis by blast
next
  case (PList xs)
  with assms obtain s1 where
    a: "rpi_list lib xs (or_parent cur p) s = Inr s1"
    and b: "rpi_dict lib i es p cur s1 = Inr s'"
    by (auto split: sum.splits)
  from rpi_continues(2) a have "continues s s1" by blast
  with b PList show ?thesis by blast
qed (use assms continues_refl in \<open>auto\<close>)

lemma rpi_dict_row:
  assumes t: "any_task_in (dict_get i ''type'' (PStr [])) = Inr True"
    and d: "map_of i ''dependsOn'' = None \<or> map_of i ''dependsOn'' = Some (PList [])"
  shows "rpi_dict lib i es p cur s = Inr s' \<Longrightarrow> \<not> pipeline_name_flag s \<Longrightarrow>
         (''name'', PStr n) \<in> set es \<Longrightarrow>
         \<exists>details pre post. table_data s' = table_data s @ pre @
           [[PStr (pipeline_name s), PStr n, dict_get i ''type'' (PStr []), details, PStr p]] @ post"
proof (induction es arbitrary: cur s)
  case Nil
  then show ?case by simp
next
  case (Cons kv es)
  obtain k v where kv: "kv = (k, v)" by (cases kv)
  from rpi_dict_Cons_Inr [OF Cons.prems(1) [unfolded kv] Cons.prems(2)] obtain s1 cur1 where
    rest: "rpi_dict lib i es p cur1 s1 = Inr s'" and c: "continues s s1"
    and rec: "k = ''name'' \<longrightarrow> (\<forall>n. v = PStr n \<longrightarrow> record_activity lib i n p s = Inr s1)"
    by blast
  from continues_name [OF c Cons.prems(2)] have
    f1: "\<not> pipeline_name_flag s1" and n1: "pipeline_name s1 = pipeline_name s" by simp_all
  show ?case
  proof (cases "kv = (''name'', PStr n)")
    case True
    with kv rec have "record_activity lib i n p s = Inr s1" by simp
    from record_activity_row [OF this t d] obtain details where
      row: "table_data s1 = table_data s @
             [[PStr (pipeline_name s), PStr n, dict_get i ''type'' (PStr []), details, PStr p]]"
      by blast
    from rpi_continues(1) rest have "continues s1 s'" by blast
    then obtain post where "table_data s' = table_data s1 @ post"
      using continues_table by blast
    with row have "table_data s' = table_data s @ [] @
             [[PStr (pipeline_name s), PStr n, dict_get i ''type'' (PStr []), details, PStr p]] @ post"
      by simp
    then show ?thesis by blast
  next
    case False
    with Cons.prems(3) have "(''name'', PStr n) \<in> set es" by simp
    from Cons.IH [OF rest f1 this] obtain details pre post where
      "table_data s' = table_data s1 @ pre @
           [[PStr (pipeline_name s1), PStr n, dict_get i ''type'' (PStr []), details, PStr p]] @ post"
      by blast
    moreover from continues_table [OF c] obtain ext where "table_data s1 = table_data s @ ext"
      by blast
    ultimately have "table_data s' = table_data s @ (ext @ pre) @
           [[PStr (pipeline_name s), PStr n, dict_get i ''type'' (PStr []), details, PStr p]] @ post"
      using n1 by simp
    then show ?thesis by blast
  qed
qed

lemma inherited_Nil: "inherited p [] = p"
  by (simp add: inherited_def)

lemma find_snoc:
  "find P (xs @ [x]) = (case find P xs of Some y \<Rightarrow> Some y | None \<Rightarrow> if P x then Some x else None)"
  by (induction xs) simp_all

lemma inherited_Cons:
  "inherited p (before # bs) = inherited (or_parent (last_name before) p) bs"
proof (cases "find reads_name (rev bs)")
  case (Some b)
  then have "reads_name b" by (auto simp: find_Some_iff)
  then obtain m where "last_name b = Some m" by (auto simp: reads_name_def split: option.splits)
  with Some show ?thesis
    by (simp add: inherited_def find_snoc)
next
  case None
  show ?thesis
  proof (cases "last_name before")
    case n: None
    with None show ?thesis
      by (simp add: inherited_def find_snoc reads_name_def or_parent_def)
  next
    case (Some n)
    with None show ?thesis
      by (simp add: inherited_def find_snoc reads_name_def or_parent_def)
  qed
qed

lemma rpi_dict_Cons_cur:
  assumes "rpi_dict lib i ((k, v) # es) p cur s = Inr s'" and "\<not> pipeline_name_flag s"
  shows "\<exists>s1. rpi_dict lib i es p
                (case last_name [(k, v)] of Some n \<Rightarrow> Some n | None \<Rightarrow> cur) s1 = Inr s'
           \<and> continues s s1"
proof (cases v)
  case (PStr name)
  show ?thesis
  proof (cases "k = ''name''")
    case True
    with assms PStr obtain s1 where
      a: "record_activity lib i name p s = Inr s1"
      and b: "rpi_dict lib i es p (Some name) s1 = Inr s'"
      by (auto split: sum.splits)
    from record_activity_continues [OF a assms(2)] b PStr True show ?thesis by auto
  next
    case False
    with assms PStr have "rpi_dict lib i es p cur s = Inr s'" by simp
    with False PStr continues_refl show ?thesis by auto
  qed
next
  case (PDict d)
  with assms obtain s1 where
    a: "rpi_dict lib d d (or_parent cur p) None s = Inr s1"
    and b: "rpi_dict lib i es p cur s1 = Inr s'"
    by (auto split: sum.splits)
  from rpi_continues(1) a have "continues s s1" by blast
  with b PDict show ?thesis by auto
next
  case (PList xs)
  with assms obtain s1 where
    a: "rpi_list lib xs (or_parent cur p) s = Inr s1"
    and b: "rpi_dict lib i es p cur s1 = Inr s'"
    by (auto split: sum.splits)
  from rpi_continues(2) a have "continues s s1" by blast
  with b PList show ?thesis by auto
qed (use assms continues_refl in \<open>auto\<close>)

lemma last_name_Cons:
  "(case last_name before of Some n \<Rightarrow> Some n
    | None \<Rightarrow> (case last_name [kv] of Some n \<Rightarrow> Some n | None \<Rightarrow> cur)) =
   (case last_name (kv # before) of Some n \<Rightarrow> Some n | None \<Rightarrow> cur)"
  by (cases kv) (simp split: option.splits pyval.splits)

lemma rpi_dict_before:
  "rpi_dict lib i (before @ rest) p cur s = Inr s' \<Longrightarrow> \<not> pipeline_name_flag s \<Longrightarrow>
   \<exists>s1. rpi_dict lib i rest p (case last_name before of Some n \<Rightarrow> Some n | None \<Rightarrow> cur) s1
          = Inr s'
      \<and> continues s s1"
proof (induction before arbitrary: cur s)
  case Nil
  with continues_refl show ?case by auto
next
  case (Cons kv before)
  obtain k v where kv: "kv = (k, v)" by (cases kv)
  from Cons.prems(1) have "rpi_dict lib i ((k, v) # (before @ rest)) p cur s = Inr s'"
    by (simp add: kv)
  from rpi_dict_Cons_cur [OF this Cons.prems(2)] obtain s1 where
    r1: "rpi_dict lib i (before @ rest) p
           (case last_name [kv] of Some n \<Rightarrow> Some n | None \<Rightarrow> cur) s1 = Inr s'"
    and c1: "continues s s1"
    unfolding kv by blast
  from continues_name [OF c1 Cons.prems(2)] have f1: "\<not> pipeline_name_flag s1" by simp
  from Cons.IH [OF r1 f1] obtain s2 where
    r2: "rpi_dict lib i rest p
           (case last_name before of Some n \<Rightarrow> Some n
            | None \<Rightarrow> (case last_name [kv] of Some n \<Rightarrow> Some n | None \<Rightarrow> cur)) s2 = Inr s'"
    and c2: "continues s1 s2"
    by blast
  from r2 have "rpi_dict lib i rest p
      (case last_name (kv # before) of Some n \<Rightarrow> Some n | None \<Rightarrow> cur) s2 = Inr s'"
    unfolding last_name_Cons .
  with continues_trans [OF c1 c2] show ?case by blast
qed

lemma rpi_list_element:
  "rpi_list lib xs q s = Inr s' \<Longrightarrow> PDict e \<in> set xs \<Longrightarrow>
   \<exists>sa sb. rpi_dict lib e e q None sa = Inr sb \<and> continues s sa \<and> continues sb s'"
proof (induction xs arbitrary: s)
  case Nil
  then show ?case by simp
next
  case (Cons x xs)
  show ?case
  proof (cases x)
    case (PDict d)
    with Cons.prems(1) obtain s1 where
      a: "rpi_dict lib d d q None s = Inr s1" and b: "rpi_list lib xs q s1 = Inr s'"
      by (auto split: sum.splits)
    from rpi_continues(1) a have c1: "continues s s1" by blast
    from rpi_continues(2) b have c2: "continues s1 s'" by blast
    show ?thesis
    proof (cases "d = e")
      case True
      with a c2 continues_refl show ?thesis by blast
    next
      case False
      with Cons.prems(2) PDict have "PDict e \<in> set xs" by simp
      from Cons.IH [OF b this] obtain sa sb where
        "rpi_dict lib e e q None sa = Inr sb" "continues s1 sa" "continues sb s'" by blast
      with continues_trans [OF c1] show ?thesis by blast
    qed
  qed (use Cons in \<open>auto\<close>)
qed

lemma rpi_dict_child:
  assumes "rpi_dict lib i ((k, v) # es) p cur s = Inr s'" and "holds_object v e"
  shows "\<exists>sa sb. rpi_dict lib e e (or_parent cur p) None sa = Inr sb
           \<and> continues s sa \<and> continues sb s'"
proof (cases v)
  case (PDict d)
  with assms obtain s1 where
    a: "rpi_dict lib e e (or_parent cur p) None s = Inr s1"
    and b: "rpi_dict lib i es p cur s1 = Inr s'"
    by (auto split: sum.splits)
  from rpi_continues(1) b have "continues s1 s'" by blast
  with a continues_refl show ?thesis by blast
next
  case (PList xs)
  with assms obtain s1 where
    a: "rpi_list lib xs (or_parent cur p) s = Inr s1"
    and b: "rpi_dict lib i es p cur s1 = Inr s'"
    and m: "PDict e \<in> set xs"
    by (auto split: sum.splits)
  from rpi_continues(1) b have c: "continues s1 s'" by blast
  from rpi_list_element [OF a m] obtain sa sb where
    "rpi_dict lib e e (or_parent cur p) None sa = Inr sb" "continues s sa" "continues sb s1"
    by blast
  with continues_trans [OF _ c] show ?thesis by blast
qed (use assms in \<open>simp_all\<close>)

lemma rpi_dict_descend:
  assumes run: "rpi_dict lib i (before @ (k, v) # after) p None s = Inr s'"
    and flag: "\<not> pipeline_name_flag s"
    and holds: "holds_object v e"
    and child: "\<And>sa sb. rpi_dict lib e e (or_parent (last_name before) p) None sa = Inr sb \<Longrightarrow>
        \<not> pipeline_name_flag sa \<Longrightarrow>
        \<exists>details pre post. table_data sb = table_data sa @ pre @ [row (pipeline_name sa) details] @ post"
  shows "\<exists>details pre post. table_data s' = table_data s @ pre @ [row (pipeline_name s) details] @ post"
proof -
  have cur: "(case last_name before of Some n \<Rightarrow> Some n | None \<Rightarrow> None) = last_name before"
    by (simp split: option.splits)
  from rpi_dict_before [OF run flag] obtain s1 where
    r1: "rpi_dict lib i ((k, v) # after) p (last_name before) s1 = Inr s'"
    and c1: "continues s s1"
    unfolding cur by blast
  from rpi_dict_child [OF r1 holds] obtain sa sb where
    r2: "rpi_dict lib e e (or_parent (last_name before) p) None sa = Inr sb"
    and c2: "continues s1 sa" and c3: "continues sb s'"
    by blast
  from continues_trans [OF c1 c2] have ca: "continues s sa" .
  from continues_name [OF ca flag] have fa: "\<not> pipeline_name_flag sa"
    and na: "pipeline_name sa = pipeline_name s" by simp_all
  from child [OF r2 fa] obtain details pre post where
    t: "table_data sb = table_data sa @ pre @ [row (pipeline_name sa) details] @ post" by blast
  from continues_table [OF ca] obtain ext1 where e1: "table_data sa = table_data s @ ext1"
    by blast
  from continues_table [OF c3] obtain ext2 where e2: "table_data s' = table_data sb @ ext2"
    by blast
  from t e1 e2 na have
    "table_data s' = table_data s @ (ext1 @ pre) @ [row (pipeline_name s) details] @ (post @ ext2)"
    by simp
  then show ?thesis by blast
qed

lemma rpi_dict_inherited:
  "descends e bs c \<Longrightarrow> (''name'', PStr n) \<in> set c \<Longrightarrow>
   any_task_in (dict_get c ''type'' (PStr [])) = Inr True \<Longrightarrow>
   map_of c ''dependsOn'' = None \<or> map_of c ''dependsOn'' = Some (PList []) \<Longrightarrow>
   rpi_dict lib e e q None s = Inr s' \<Longrightarrow> \<not> pipeline_name_flag s \<Longrightarrow>
   \<exists>details pre post. table_data s' = table_data s @ pre @
     [[PStr (pipeline_name s), PStr n, dict_get c ''type'' (PStr []), details,
       PStr (inherited q bs)]] @ post"
proof (induction arbitrary: q s s' rule: descends.induct)
  case (here d)
  from rpi_dict_row [OF here(2) here(3) here(4) here(5) here(1)] show ?case
    by (simp add: inherited_Nil)
next
  case (step v e bs c before k after)
  have "\<exists>details pre post. table_data s' = table_data s @ pre @
          [(\<lambda>pn details. [PStr pn, PStr n, dict_get c ''type'' (PStr []), details,
              PStr (inherited (or_parent (last_name before) q) bs)]) (pipeline_name s) details] @ post"
  proof (rule rpi_dict_descend [OF step.prems(4) step.prems(5) step.hyps(1)])
    fix sa sb
    assume "rpi_dict lib e e (or_parent (last_name before) q) None sa = Inr sb"
      and "\<not> pipeline_name_flag sa"
    from step.IH [OF step.prems(1) step.prems(2) step.prems(3) this] show
      "\<exists>details pre post. table_data sb = table_data sa @ pre @
          [[PStr (pipeline_name sa), PStr n, dict_get c ''type'' (PStr []), details,
              PStr (inherited (or_parent (last_name before) q) bs)]] @ post" .
  qed
  then show ?case by (simp add: inherited_Cons)
qed





text \<open>
  The same for a whole document that starts with its name: the first entry is the name that
  is captured as the pipeline name, and it is not a name the nodes inherit.
\<close>

lemma document_dependency:
  assumes run: "recursive_parsing_Individual lib
                  (PDict ((''name'', PStr pl) # before @ (k, v) # after)) p s = Inr s'"
    and flag: "pipeline_name_flag s"
    and holds: "holds_object v e"
    and desc: "descends e bs c"
    and n: "map_of c ''name'' = Some (PStr n)"
    and t: "any_task_in (dict_get c ''type'' (PStr [])) = Inr True"
    and d: "map_of c ''dependsOn'' = None \<or> map_of c ''dependsOn'' = Some (PList [])"
  shows "\<exists>details pre post. table_data s' = table_data s @ pre @
           [[PStr pl, PStr n, dict_get c ''type'' (PStr []), details,
             PStr (inherited p (before # bs))]] @ post"
proof -
  let ?doc = "(''name'', PStr pl) # before @ (k, v) # after"
  let ?s0 = "s\<lparr>pipeline_name_flag := False, pipeline_name := pl\<rparr>"
  from run flag have r: "rpi_dict lib ?doc (before @ (k, v) # after) p None ?s0 = Inr s'"
    by (simp add: recursive_parsing_Individual_def)
  have f0: "\<not> pipeline_name_flag ?s0" by simp
  from n have m: "(''name'', PStr n) \<in> set c" by (rule map_of_SomeD)
  have "\<exists>details pre post. table_data s' = table_data ?s0 @ pre @
          [(\<lambda>pn details. [PStr pn, PStr n, dict_get c ''type'' (PStr []), details,
              PStr (inherited (or_parent (last_name before) p) bs)]) (pipeline_name ?s0) details] @ post"
  proof (rule rpi_dict_descend [OF r f0 holds])
    fix sa sb
    assume "rpi_dict lib e e (or_parent (last_name before) p) None sa = Inr sb"
      and "\<not> pipeline_name_flag sa"
    from rpi_dict_inherited [OF desc m t d this] show
      "\<exists>details pre post. table_data sb = table_data sa @ pre @
          [[PStr (pipeline_name sa), PStr n, dict_get c ''type'' (PStr []), details,
              PStr (inherited (or_parent (last_name before) p) bs)]] @ post" .
  qed
  then show ?thesis by (simp add: inherited_Cons)
qed

end
